theory Spec2Isabelle
  imports Complex_Main
begin

section \<open>Numbers, errors and the interpolation primitive\<close>

text \<open>
  The engine computes with JavaScript numbers. They are idealised here as real numbers:
  rounding of floating point is not modelled. The one non-finite value the engine stores on
  purpose, \<^verbatim>\<open>Infinity\<close> in the group table, has a constructor of its own.

  An exception is a value of type \<open>error\<close>; a computation that can raise returns
  \<open>error + 'a\<close>, with \<open>Inl\<close> for the exception.
\<close>

datatype error =
    InputRangeNotIncreasing
  | NodeNotFound string
  | ContainerNotFound string

definition bindE :: "error + 'a \<Rightarrow> ('a \<Rightarrow> error + 'b) \<Rightarrow> error + 'b" where
  "bindE m f = (case m of Inl e \<Rightarrow> Inl e | Inr x \<Rightarrow> f x)"

fun foldE :: "('a \<Rightarrow> 's \<Rightarrow> error + 's) \<Rightarrow> 'a list \<Rightarrow> 's \<Rightarrow> error + 's" where
  "foldE f [] s = Inr s"
| "foldE f (x # xs) s = bindE (f x s) (foldE f xs)"

text \<open>\<^verbatim>\<open>Math.round\<close>: the nearest integer, a tie going up.\<close>

definition Math_round :: "real \<Rightarrow> real" where
  "Math_round x = of_int (floor (x + 1 / 2))"

text \<open>
  \<^verbatim>\<open>interpolate\<close> is imported from the remotion library. Every call in the engine passes
  \<^verbatim>\<open>extrapolateLeft: "clamp", extrapolateRight: "clamp"\<close> and no easing, so that is the
  variant modelled: the library rejects an input range that is not strictly increasing
  (the engine's own comment at the fade-out guard says so), finds the segment of the input,
  clamps the input to it and maps it linearly.
\<close>

fun checkValidInputRange :: "real list \<Rightarrow> bool" where
  "checkValidInputRange (a # b # rest) = (a < b \<and> checkValidInputRange (b # rest))"
| "checkValidInputRange _ = True"

text \<open>
  \<^verbatim>\<open>for (i = 1; i < inputRange.length - 1; ++i) if (inputRange[i] >= input) break;
  return i - 1\<close>: the list argument is the range from index \<open>i\<close> on.
\<close>

fun findRangeFrom :: "real \<Rightarrow> real list \<Rightarrow> nat \<Rightarrow> nat" where
  "findRangeFrom input (x # y # rest) i =
     (if x \<ge> input then i - 1 else findRangeFrom input (y # rest) (i + 1))"
| "findRangeFrom input _ i = i - 1"

definition findRange :: "real \<Rightarrow> real list \<Rightarrow> nat" where
  "findRange input inputRange = findRangeFrom input (tl inputRange) 1"

definition interpolateFunction :: "real \<Rightarrow> real \<Rightarrow> real \<Rightarrow> real \<Rightarrow> real \<Rightarrow> real" where
  "interpolateFunction input inputMin inputMax outputMin outputMax =
     (let result = (if input < inputMin then inputMin else input);
          result = (if result > inputMax then inputMax else result)
      in if outputMin = outputMax then outputMin
         else (result - inputMin) / (inputMax - inputMin) * (outputMax - outputMin) + outputMin)"

definition interpolate :: "real \<Rightarrow> real list \<Rightarrow> real list \<Rightarrow> error + real" where
  "interpolate input inputRange outputRange =
     (if \<not> checkValidInputRange inputRange then Inl InputRangeNotIncreasing
      else let range = findRange input inputRange
           in Inr (interpolateFunction input
                     (inputRange ! range) (inputRange ! (range + 1))
                     (outputRange ! range) (outputRange ! (range + 1))))"

section \<open>The timeline and its flattening\<close>

datatype StepAction = fillBox | dimBox | drawLine | showContainer

datatype EventAction = Act StepAction | hold | dim | reveal

datatype EventSource = FromPhase | FromStep

record StepLabel =
  label_num :: real
  label_text :: string

text \<open>
  \<^verbatim>\<open>AnimationStep\<close>: the four targeted actions share their fields
  (target, duration, step label, group), \<^verbatim>\<open>hold\<close> has a duration and
  \<^verbatim>\<open>parallel\<close> has its children and an optional group.
\<close>

datatype AnimationStep =
    Leaf StepAction string "real option" "StepLabel option" "string option"
  | HoldStep real
  | Parallel "AnimationStep list" "string option"

datatype Phase =
    HoldPhase real
  | SequencePhase "AnimationStep list"
  | DimPhase real
  | RevealPhase real

type_synonym Timeline = "Phase list"

record FlatEvent =
  action :: EventAction
  source :: EventSource
  target :: "string option"
  startFrame :: real
  durationFrames :: real
  step :: "StepLabel option"
  group :: "string option"

definition DEFAULT_FILL_DURATION :: real where "DEFAULT_FILL_DURATION = 0.8"
definition DEFAULT_DRAW_DURATION :: real where "DEFAULT_DRAW_DURATION = 0.4"
definition DEFAULT_SHOW_DURATION :: real where "DEFAULT_SHOW_DURATION = 0.4"
definition FADE_OUT_LOOKAHEAD_NODE :: nat where "FADE_OUT_LOOKAHEAD_NODE = 3"
definition FADE_OUT_LOOKAHEAD_ARROW :: nat where "FADE_OUT_LOOKAHEAD_ARROW = 2"
definition FADE_OUT_S :: real where "FADE_OUT_S = 0.4"
definition DIM_NODE :: real where "DIM_NODE = 0.3"
definition DIM_ARROW :: real where "DIM_ARROW = 0.15"
definition DIM_CONTAINER :: real where "DIM_CONTAINER = 0.3"

fun getDefaultDuration :: "StepAction \<Rightarrow> real" where
  "getDefaultDuration fillBox = DEFAULT_FILL_DURATION"
| "getDefaultDuration dimBox = DEFAULT_FILL_DURATION"
| "getDefaultDuration drawLine = DEFAULT_DRAW_DURATION"
| "getDefaultDuration showContainer = DEFAULT_SHOW_DURATION"

text \<open>\<^verbatim>\<open>a ?? b\<close> on an optional field.\<close>

definition nullish :: "'a option \<Rightarrow> 'a option \<Rightarrow> 'a option" where
  "nullish a b = (case a of Some x \<Rightarrow> Some x | None \<Rightarrow> b)"

definition phaseEvent :: "EventAction \<Rightarrow> real \<Rightarrow> real \<Rightarrow> FlatEvent" where
  "phaseEvent a cursor frames =
     \<lparr>action = a, source = FromPhase, target = None, startFrame = cursor,
      durationFrames = frames, step = None, group = None\<rparr>"

text \<open>
  \<^verbatim>\<open>flattenStep\<close> mutates the event list and the cursor of the enclosing
  \<^verbatim>\<open>flattenTimeline\<close>; here both are passed in and returned. \<open>flattenChildren\<close> is the
  loop over the children of a \<^verbatim>\<open>parallel\<close> step: it resets the cursor to
  \<open>parallelStart\<close> before each child and carries \<open>maxDuration\<close>.
\<close>

fun flattenStep :: "real \<Rightarrow> AnimationStep \<Rightarrow> string option \<Rightarrow> FlatEvent list \<times> real
                     \<Rightarrow> FlatEvent list \<times> real"
and flattenChildren :: "real \<Rightarrow> AnimationStep list \<Rightarrow> string option \<Rightarrow> real
                     \<Rightarrow> FlatEvent list \<times> real \<times> real \<Rightarrow> FlatEvent list \<times> real \<times> real" where
  "flattenStep fps (HoldStep duration) parentGroup (events, cursor) =
     (let frames = Math_round (duration * fps)
      in (events @ [\<lparr>action = hold, source = FromStep, target = None, startFrame = cursor,
                     durationFrames = frames, step = None, group = None\<rparr>],
          cursor + frames))"
| "flattenStep fps (Parallel steps g) parentGroup (events, cursor) =
     (let parallelStart = cursor;
          grp = nullish g parentGroup
      in case flattenChildren fps steps grp parallelStart (events, cursor, 0) of
           (events', cursor', maxDuration) \<Rightarrow> (events', parallelStart + maxDuration))"
| "flattenStep fps (Leaf a tgt d lbl g) parentGroup (events, cursor) =
     (let duration = (case d of Some x \<Rightarrow> x | None \<Rightarrow> getDefaultDuration a);
          frames = Math_round (duration * fps);
          grp = nullish g parentGroup
      in (events @ [\<lparr>action = Act a, source = FromStep, target = Some tgt, startFrame = cursor,
                     durationFrames = frames, step = lbl, group = grp\<rparr>],
          cursor + frames))"
| "flattenChildren fps [] grp parallelStart acc = acc"
| "flattenChildren fps (child # rest) grp parallelStart (events, cursor, maxDuration) =
     (case flattenStep fps child grp (events, parallelStart) of
        (events', cursor') \<Rightarrow>
          flattenChildren fps rest grp parallelStart
            (events', cursor', max maxDuration (cursor' - parallelStart)))"

fun flattenPhase :: "real \<Rightarrow> Phase \<Rightarrow> FlatEvent list \<times> real \<Rightarrow> FlatEvent list \<times> real" where
  "flattenPhase fps (HoldPhase duration) (events, cursor) =
     (let frames = Math_round (duration * fps)
      in (events @ [phaseEvent hold cursor frames], cursor + frames))"
| "flattenPhase fps (DimPhase duration) (events, cursor) =
     (let frames = Math_round (duration * fps)
      in (events @ [phaseEvent dim cursor frames], cursor + frames))"
| "flattenPhase fps (RevealPhase duration) (events, cursor) =
     (let frames = Math_round (duration * fps)
      in (events @ [phaseEvent reveal cursor frames], cursor + frames))"
| "flattenPhase fps (SequencePhase steps) (events, cursor) =
     fold (\<lambda>s acc. flattenStep fps s None acc) steps (events, cursor)"

definition flattenTimeline :: "Timeline \<Rightarrow> real \<Rightarrow> FlatEvent list" where
  "flattenTimeline timeline fps = fst (fold (flattenPhase fps) timeline ([], 0))"

section \<open>Configuration records\<close>

text \<open>
  Of the configuration types only the fields the layout and the timeline read are kept
  (labels, icons, colours and font sizes go to the renderers). \<^verbatim>\<open>from\<close> and \<^verbatim>\<open>to\<close> of a
  connection are \<open>cfrom\<close> and \<open>cto\<close>, \<^verbatim>\<open>id\<close> fields carry the name of their record.
\<close>

record Point =
  px :: real
  py :: real

datatype Edge = EdgeLeft | EdgeRight | EdgeTop | EdgeBottom

datatype SideEdge = SideLeft | SideRight

datatype ConnectionTarget = NodeRef string | ContainerRef string SideEdge

record NodeDef =
  node_id :: string
  position_row :: real
  position_col :: real
  container :: "string option"
  innerCol :: "real option"
  alignToInnerCol :: "(string \<times> real) option"
  widthCols :: "real option"
  heightRows :: "real option"
  boxHeightFrac :: "real option"

record ContainerDef =
  container_id :: string
  span_fromRow :: real
  span_toRow :: real
  span_fromCol :: real
  span_toCol :: real
  innerGrid_cols :: real
  insetFrac :: "real option"

record ConnectionDef =
  conn_id :: "string option"
  cfrom :: ConnectionTarget
  cto :: ConnectionTarget
  fromEdge :: "Edge option"
  toEdge :: "Edge option"
  waypoints :: "Point list option"

fun targetId :: "ConnectionTarget \<Rightarrow> string" where
  "targetId (NodeRef n) = n"
| "targetId (ContainerRef c e) =
     ''container:'' @ c @ '':'' @ (case e of SideLeft \<Rightarrow> ''left'' | SideRight \<Rightarrow> ''right'')"

definition getConnectionId :: "ConnectionDef \<Rightarrow> string" where
  "getConnectionId def =
     (case conn_id def of
        Some i \<Rightarrow> if i \<noteq> [] then i else targetId (cfrom def) @ ''->'' @ targetId (cto def)
      | None \<Rightarrow> targetId (cfrom def) @ ''->'' @ targetId (cto def))"

section \<open>The timeline evaluator\<close>

record ElementAnimState =
  brightness :: real
  drawProgress :: real
  opacity :: real

record CurrentStep =
  cur_num :: real
  cur_text :: string
  cur_progress :: real

record TimelineState =
  nodes :: "string \<rightharpoonup> ElementAnimState"
  connections :: "string \<rightharpoonup> ElementAnimState"
  containers :: "string \<rightharpoonup> ElementAnimState"
  currentStep :: "CurrentStep option"
  totalSteps :: nat
  indicatorOpacity :: real
  globalOpacity :: real
  globalFloor :: real

subsection \<open>Global floor and global opacity\<close>

text \<open>
  The loop of the branch without a dim phase: it runs over the leading phase-sourced
  hold, dim and reveal events and stops at the first other event.
\<close>

fun sequenceStartLoop :: "FlatEvent list \<Rightarrow> real \<Rightarrow> real" where
  "sequenceStartLoop [] sequenceStart = sequenceStart"
| "sequenceStartLoop (evt # rest) sequenceStart =
     (if source evt = FromPhase \<and> (action evt = hold \<or> action evt = dim \<or> action evt = reveal)
      then sequenceStartLoop rest (max sequenceStart (startFrame evt + durationFrames evt))
      else sequenceStart)"

text \<open>The result is the pair \<open>(globalFloor, globalOpacity)\<close>.\<close>

definition computeGlobals :: "FlatEvent list \<Rightarrow> real \<Rightarrow> error + (real \<times> real)" where
  "computeGlobals events frame =
     (let dimEvt = find (\<lambda>e. action e = dim) events;
          revealEvt = find (\<lambda>e. action e = reveal) events
      in bindE
           (case dimEvt of
              Some d \<Rightarrow>
                (let dimStart = startFrame d;
                     dimEnd = dimStart + durationFrames d;
                     firstPostDimEvt = find (\<lambda>e. startFrame e \<ge> dimEnd \<and> action e \<noteq> dim) events
                 in bindE
                      (if frame \<ge> dimEnd then Inr (0, 0)
                       else if frame \<ge> dimStart
                         then bindE (interpolate frame [dimStart, dimEnd] [1, 0])
                                (\<lambda>opac. Inr (1, opac))
                       else Inr (1, 1))
                      (\<lambda>(flr, opac).
                         Inr (flr, (case firstPostDimEvt of
                                      Some p \<Rightarrow> if frame \<ge> startFrame p then 1 else opac
                                    | None \<Rightarrow> opac))))
            | None \<Rightarrow>
                (let sequenceStart = sequenceStartLoop events 0
                 in Inr (if frame \<ge> sequenceStart then 0 else 1, 1)))
           (\<lambda>(flr, opac).
              bindE
                (case revealEvt of
                   Some r \<Rightarrow>
                     (let revealStart = startFrame r;
                          revealEnd = revealStart + durationFrames r
                      in if frame \<ge> revealEnd then Inr 1
                         else if frame \<ge> revealStart
                           then bindE (interpolate frame [revealStart, revealEnd] [0, 1])
                                  (\<lambda>v. Inr (max flr v))
                         else Inr flr)
                 | None \<Rightarrow> Inr flr)
                (\<lambda>flr'. Inr (flr', opac))))"

subsection \<open>Fade-out triggers\<close>

definition isAnimEvent :: "FlatEvent \<Rightarrow> bool" where
  "isAnimEvent e = (action e \<noteq> hold \<and> action e \<noteq> dim \<and> action e \<noteq> reveal)"

definition computeFadeOutStart :: "FlatEvent list \<Rightarrow> nat \<Rightarrow> FlatEvent \<Rightarrow> real option" where
  "computeFadeOutStart animEvents evtIndex evt =
     (let lookahead = (if action evt = Act drawLine then FADE_OUT_LOOKAHEAD_ARROW
                       else FADE_OUT_LOOKAHEAD_NODE);
          triggerIdx = evtIndex + lookahead
      in if triggerIdx \<ge> length animEvents then None
         else Some (startFrame (animEvents ! triggerIdx)
                    + durationFrames (animEvents ! triggerIdx)))"

text \<open>
  The values of the table \<^verbatim>\<open>groupLatestTriggerFrame\<close>: a frame number or \<^verbatim>\<open>Infinity\<close>;
  \<open>maxTrigger\<close> is \<^verbatim>\<open>Math.max\<close> on them.
\<close>

datatype Trigger = Finite real | Infinity

fun maxTrigger :: "Trigger \<Rightarrow> Trigger \<Rightarrow> Trigger" where
  "maxTrigger (Finite a) (Finite b) = Finite (max a b)"
| "maxTrigger _ _ = Infinity"

text \<open>A group tag counts when it is truthy: present and not the empty string.\<close>

fun truthyGroup :: "string option \<Rightarrow> string option" where
  "truthyGroup None = None"
| "truthyGroup (Some g) = (if g = [] then None else Some g)"

definition groupPassStep :: "FlatEvent list \<Rightarrow> nat \<Rightarrow> (string \<rightharpoonup> Trigger) \<Rightarrow> (string \<rightharpoonup> Trigger)" where
  "groupPassStep animEvents i tbl =
     (let evt = animEvents ! i
      in case truthyGroup (group evt) of
           None \<Rightarrow> tbl
         | Some g \<Rightarrow>
             (case computeFadeOutStart animEvents i evt of
                None \<Rightarrow> tbl(g \<mapsto> Infinity)
              | Some fadeOutStart \<Rightarrow>
                  tbl(g \<mapsto> maxTrigger (case tbl g of Some t \<Rightarrow> t | None \<Rightarrow> Finite 0)
                                      (Finite fadeOutStart))))"

definition groupLatestTriggerFrame :: "FlatEvent list \<Rightarrow> (string \<rightharpoonup> Trigger)" where
  "groupLatestTriggerFrame animEvents =
     fold (groupPassStep animEvents) [0..<length animEvents] Map.empty"

text \<open>
  The first statement of \<^verbatim>\<open>eventEnvelope\<close>, which chooses \<^verbatim>\<open>fadeOutStart\<close>: the group's
  trigger for an event with a group found in the table, the event's own lookahead otherwise.
  \<open>None\<close> is \<^verbatim>\<open>null\<close>: no fade-out.
\<close>

definition fadeOutStartOf :: "FlatEvent list \<Rightarrow> (string \<rightharpoonup> Trigger) \<Rightarrow> FlatEvent \<Rightarrow> nat \<Rightarrow> real option" where
  "fadeOutStartOf animEvents tbl evt evtIndex =
     (case truthyGroup (group evt) of
        None \<Rightarrow> computeFadeOutStart animEvents evtIndex evt
      | Some g \<Rightarrow>
          (case tbl g of
             None \<Rightarrow> computeFadeOutStart animEvents evtIndex evt
           | Some groupTrigger \<Rightarrow>
               (case groupTrigger of Infinity \<Rightarrow> None | Finite t \<Rightarrow> Some t)))"

definition eventEnvelope ::
  "real \<Rightarrow> real \<Rightarrow> FlatEvent list \<Rightarrow> (string \<rightharpoonup> Trigger) \<Rightarrow> FlatEvent \<Rightarrow> nat \<Rightarrow> error + real" where
  "eventEnvelope frame fps animEvents tbl evt evtIndex =
     (let onset = startFrame evt;
          fadeInEnd = onset + durationFrames evt
      in case fadeOutStartOf animEvents tbl evt evtIndex of
           None \<Rightarrow> interpolate frame [onset, fadeInEnd] [0, 1]
         | Some fadeOutStart \<Rightarrow>
             (let fadeOutFrames = Math_round (FADE_OUT_S * fps);
                  adjustedFadeOutStart =
                    (if fadeOutStart \<le> fadeInEnd then fadeInEnd + 1 else fadeOutStart);
                  fadeOutEnd = adjustedFadeOutStart + fadeOutFrames
              in interpolate frame [onset, fadeInEnd, adjustedFadeOutStart, fadeOutEnd]
                   [0, 1, 1, 0]))"

definition eventDrawProgress :: "real \<Rightarrow> FlatEvent \<Rightarrow> error + real" where
  "eventDrawProgress frame evt =
     interpolate frame [startFrame evt, startFrame evt + durationFrames evt] [0, 1]"

subsection \<open>Per-element state\<close>

text \<open>
  One iteration of the loop over \<^verbatim>\<open>animEvents\<close> for the node \<open>nid\<close>; the accumulator is
  \<open>(maxBright, maxDraw, dimAmount)\<close>.
\<close>

definition nodeStep ::
  "real \<Rightarrow> real \<Rightarrow> FlatEvent list \<Rightarrow> (string \<rightharpoonup> Trigger) \<Rightarrow> string \<Rightarrow> nat
     \<Rightarrow> real \<times> real \<times> real \<Rightarrow> error + (real \<times> real \<times> real)" where
  "nodeStep frame fps animEvents tbl nid i acc =
     (case acc of (maxBright, maxDraw, dimAmount) \<Rightarrow>
        (let evt = animEvents ! i
         in bindE
              (if action evt = Act fillBox \<and> target evt = Some nid
               then bindE (eventEnvelope frame fps animEvents tbl evt i)
                      (\<lambda>env. bindE (eventDrawProgress frame evt)
                         (\<lambda>d. Inr (max maxBright env, max maxDraw d)))
               else Inr (maxBright, maxDraw))
              (\<lambda>(maxBright', maxDraw').
                 bindE
                   (if action evt = Act dimBox \<and> target evt = Some nid
                    then bindE (eventDrawProgress frame evt) (\<lambda>d. Inr (max dimAmount d))
                    else Inr dimAmount)
                   (\<lambda>dimAmount'. Inr (maxBright', maxDraw', dimAmount')))))"

definition nodeState ::
  "real \<Rightarrow> real \<Rightarrow> FlatEvent list \<Rightarrow> (string \<rightharpoonup> Trigger) \<Rightarrow> real \<Rightarrow> string
     \<Rightarrow> error + ElementAnimState" where
  "nodeState frame fps animEvents tbl globalFlr nid =
     bindE (foldE (nodeStep frame fps animEvents tbl nid) [0..<length animEvents] (0, 0, 0))
       (\<lambda>(maxBright, maxDraw, dimAmount).
          (let bright = max (max maxBright globalFlr - dimAmount) 0;
               draw = max maxDraw globalFlr
           in Inr \<lparr>brightness = bright, drawProgress = draw,
                   opacity = DIM_NODE + (1 - DIM_NODE) * bright\<rparr>))"

text \<open>
  Each of the three loops over the elements computes the state of one element from its id
  and stores it under that id; \<open>buildStates\<close> is that loop, stopping at the first
  exception.
\<close>

definition buildStates ::
  "(string \<Rightarrow> error + ElementAnimState) \<Rightarrow> string list \<Rightarrow> error + (string \<rightharpoonup> ElementAnimState)" where
  "buildStates stateOf ids =
     foldE (\<lambda>i states. bindE (stateOf i) (\<lambda>s. Inr (states(i \<mapsto> s)))) ids Map.empty"

definition nodeStatesOf ::
  "real \<Rightarrow> real \<Rightarrow> FlatEvent list \<Rightarrow> (string \<rightharpoonup> Trigger) \<Rightarrow> real \<Rightarrow> NodeDef list
     \<Rightarrow> error + (string \<rightharpoonup> ElementAnimState)" where
  "nodeStatesOf frame fps animEvents tbl globalFlr ns =
     buildStates (nodeState frame fps animEvents tbl globalFlr) (map node_id ns)"

text \<open>The loop for the connection \<open>connId\<close>; the accumulator is \<open>(maxBright, maxDraw)\<close>.\<close>

definition connStep ::
  "real \<Rightarrow> real \<Rightarrow> FlatEvent list \<Rightarrow> (string \<rightharpoonup> Trigger) \<Rightarrow> string \<Rightarrow> nat
     \<Rightarrow> real \<times> real \<Rightarrow> error + (real \<times> real)" where
  "connStep frame fps animEvents tbl connId i acc =
     (case acc of (maxBright, maxDraw) \<Rightarrow>
        (let evt = animEvents ! i
         in if action evt = Act drawLine \<and> target evt = Some connId
            then bindE (eventEnvelope frame fps animEvents tbl evt i)
                   (\<lambda>env. bindE (eventDrawProgress frame evt)
                      (\<lambda>d. Inr (max maxBright env, max maxDraw d)))
            else Inr (maxBright, maxDraw)))"

definition connState ::
  "real \<Rightarrow> real \<Rightarrow> FlatEvent list \<Rightarrow> (string \<rightharpoonup> Trigger) \<Rightarrow> real \<Rightarrow> real \<Rightarrow> string
     \<Rightarrow> error + ElementAnimState" where
  "connState frame fps animEvents tbl globalFlr flowEnd connId =
     bindE (foldE (connStep frame fps animEvents tbl connId) [0..<length animEvents] (0, 0))
       (\<lambda>(maxBright, maxDraw).
          (let fadeInFrames = Math_round (DEFAULT_DRAW_DURATION * fps)
           in bindE (interpolate frame [flowEnd - fadeInFrames, flowEnd] [0, 1])
                (\<lambda>finalRamp.
                   (let bright = max (max maxBright finalRamp) globalFlr;
                        draw = max (max maxDraw globalFlr) finalRamp
                    in Inr \<lparr>brightness = bright, drawProgress = draw,
                            opacity = DIM_ARROW + (1 - DIM_ARROW) * bright\<rparr>))))"

definition connStatesOf ::
  "real \<Rightarrow> real \<Rightarrow> FlatEvent list \<Rightarrow> (string \<rightharpoonup> Trigger) \<Rightarrow> real \<Rightarrow> real \<Rightarrow> ConnectionDef list
     \<Rightarrow> error + (string \<rightharpoonup> ElementAnimState)" where
  "connStatesOf frame fps animEvents tbl globalFlr flowEnd cs =
     buildStates (connState frame fps animEvents tbl globalFlr flowEnd) (map getConnectionId cs)"

text \<open>The two loops for the container \<open>cid\<close>: its own events, then its member nodes.\<close>

definition containerStep ::
  "real \<Rightarrow> real \<Rightarrow> FlatEvent list \<Rightarrow> (string \<rightharpoonup> Trigger) \<Rightarrow> string \<Rightarrow> nat \<Rightarrow> real \<Rightarrow> error + real" where
  "containerStep frame fps animEvents tbl cid i maxBright =
     (let evt = animEvents ! i
      in if action evt = Act showContainer \<and> target evt = Some cid
         then bindE (eventEnvelope frame fps animEvents tbl evt i)
                (\<lambda>env. Inr (max maxBright env))
         else Inr maxBright)"

definition memberStep :: "(string \<rightharpoonup> ElementAnimState) \<Rightarrow> string \<Rightarrow> NodeDef \<Rightarrow> real \<Rightarrow> real" where
  "memberStep nodeStates cid ndef maxBright =
     (if container ndef = Some cid
      then (case nodeStates (node_id ndef) of
              Some s \<Rightarrow> max maxBright (brightness s)
            | None \<Rightarrow> maxBright)
      else maxBright)"

definition containerState ::
  "real \<Rightarrow> real \<Rightarrow> FlatEvent list \<Rightarrow> (string \<rightharpoonup> Trigger) \<Rightarrow> real \<Rightarrow> NodeDef list
     \<Rightarrow> (string \<rightharpoonup> ElementAnimState) \<Rightarrow> string \<Rightarrow> error + ElementAnimState" where
  "containerState frame fps animEvents tbl globalFlr ns nodeStates cid =
     bindE (foldE (containerStep frame fps animEvents tbl cid) [0..<length animEvents] 0)
       (\<lambda>maxBright.
          (let maxBright' = fold (memberStep nodeStates cid) ns maxBright;
               bright = max maxBright' globalFlr
           in Inr \<lparr>brightness = bright, drawProgress = 1,
                   opacity = DIM_CONTAINER + (1 - DIM_CONTAINER) * bright\<rparr>))"

definition containerStatesOf ::
  "real \<Rightarrow> real \<Rightarrow> FlatEvent list \<Rightarrow> (string \<rightharpoonup> Trigger) \<Rightarrow> real \<Rightarrow> NodeDef list
     \<Rightarrow> (string \<rightharpoonup> ElementAnimState) \<Rightarrow> ContainerDef list
     \<Rightarrow> error + (string \<rightharpoonup> ElementAnimState)" where
  "containerStatesOf frame fps animEvents tbl globalFlr ns nodeStates ks =
     buildStates (containerState frame fps animEvents tbl globalFlr ns nodeStates)
       (map container_id ks)"

subsection \<open>The hook\<close>

text \<open>\<^verbatim>\<open>Math.max(...xs)\<close> on a list the caller has found non-empty.\<close>

definition maxOfList :: "real list \<Rightarrow> real" where
  "maxOfList xs = fold max (tl xs) (hd xs)"

definition totalFramesOf :: "FlatEvent list \<Rightarrow> real" where
  "totalFramesOf events =
     (if events \<noteq> [] then maxOfList (map (\<lambda>e. startFrame e + durationFrames e) events) else 0)"

text \<open>
  \<^verbatim>\<open>[...animEvents].reverse().find(e => e.action !== "hold")\<close>, then the grace interval
  of two seconds.
\<close>

definition flowEndOf :: "FlatEvent list \<Rightarrow> FlatEvent list \<Rightarrow> real \<Rightarrow> real" where
  "flowEndOf events animEvents fps =
     (case find (\<lambda>e. action e \<noteq> hold) (rev animEvents) of
        Some lastFlowEvent \<Rightarrow>
          startFrame lastFlowEvent + durationFrames lastFlowEvent + Math_round (2 * fps)
      | None \<Rightarrow> totalFramesOf events)"

definition currentStepOf :: "FlatEvent list \<Rightarrow> real \<Rightarrow> error + CurrentStep option" where
  "currentStepOf animEvents frame =
     (case find (\<lambda>e. step e \<noteq> None \<and> frame \<ge> startFrame e) (rev animEvents) of
        None \<Rightarrow> Inr None
      | Some evt \<Rightarrow>
          bindE (interpolate frame [startFrame evt, startFrame evt + durationFrames evt] [0, 1])
            (\<lambda>progress.
               Inr (case step evt of
                      Some l \<Rightarrow> Some \<lparr>cur_num = label_num l, cur_text = label_text l,
                                       cur_progress = progress\<rparr>
                    | None \<Rightarrow> None)))"

text \<open>
  \<^verbatim>\<open>useTimeline\<close>: the current frame and the frame rate, which the hook reads from the
  runtime, are arguments. \<open>Inr None\<close> is the \<^verbatim>\<open>null\<close> of an empty timeline or a still
  composition.
\<close>

definition useTimeline ::
  "Timeline \<Rightarrow> NodeDef list \<Rightarrow> ConnectionDef list \<Rightarrow> ContainerDef list \<Rightarrow> real \<Rightarrow> real
     \<Rightarrow> error + TimelineState option" where
  "useTimeline timeline ns cs ks frame fps =
     (if length timeline = 0 then Inr None
      else if fps \<le> 1 then Inr None
      else
        (let events = flattenTimeline timeline fps
         in bindE (computeGlobals events frame) (\<lambda>(globalFlr, globalOpac).
            (let animEvents = filter isAnimEvent events;
                 total = length (filter (\<lambda>e. step e \<noteq> None) animEvents);
                 tbl = groupLatestTriggerFrame animEvents
             in bindE (nodeStatesOf frame fps animEvents tbl globalFlr ns) (\<lambda>nodeStates.
                (let flowEnd = flowEndOf events animEvents fps
                 in bindE (connStatesOf frame fps animEvents tbl globalFlr flowEnd cs) (\<lambda>connStates.
                    bindE (containerStatesOf frame fps animEvents tbl globalFlr ns nodeStates ks)
                      (\<lambda>containerStates.
                    bindE (currentStepOf animEvents frame) (\<lambda>cur.
                    (let fadeOutFrames = Math_round (FADE_OUT_S * fps)
                     in bindE
                          (if frame \<ge> flowEnd then Inr 0
                           else interpolate frame [flowEnd - fadeOutFrames * 2, flowEnd] [1, 0])
                          (\<lambda>sequenceIndicatorOpacity.
                             (let indicator =
                                    (if globalFlr > 0.01 then 0 else sequenceIndicatorOpacity)
                              in Inr (Some
                                   \<lparr>nodes = nodeStates, connections = connStates,
                                    containers = containerStates,
                                    currentStep = (if indicator > 0.01 then cur else None),
                                    totalSteps = total,
                                    indicatorOpacity = indicator,
                                    globalOpacity = globalOpac,
                                    globalFloor = globalFlr\<rparr>)))))))))))))"

section \<open>Layout resolution\<close>



record InnerGrid =
  inner_left :: real
  inner_top :: real
  inner_cellWidth :: real
  inner_cellHeight :: real

record ResolvedContainer =
  rc_def :: ContainerDef
  rc_left :: real
  rc_top :: real
  rc_width :: real
  rc_height :: real
  labelHeight :: real
  innerGrid :: InnerGrid

record ResolvedNode =
  rn_def :: NodeDef
  center :: Point
  rn_width :: real
  rn_height :: real
  isInner :: bool

record ResolvedConnection =
  conn_def :: ConnectionDef
  rconn_id :: string
  points :: "Point list"


definition DEFAULT_CONTAINER_INSET_FRAC :: real where "DEFAULT_CONTAINER_INSET_FRAC = 0.06"
definition CONTAINER_LABEL_H :: real where "CONTAINER_LABEL_H = 24"
definition OUTER_BOX_W_FRAC :: real where "OUTER_BOX_W_FRAC = 0.62"
definition OUTER_BOX_H_FRAC :: real where "OUTER_BOX_H_FRAC = 0.32"
definition INNER_BOX_W_FRAC :: real where "INNER_BOX_W_FRAC = 0.58"
definition INNER_BOX_H_FRAC :: real where "INNER_BOX_H_FRAC = 0.55"

definition orElse :: "'a option \<Rightarrow> 'a \<Rightarrow> 'a" where
  "orElse a b = (case a of Some v \<Rightarrow> v | None \<Rightarrow> b)"

text \<open>
  The helpers below are closures of \<^verbatim>\<open>resolveLayout\<close>; the variables they capture
  (\<open>cellW\<close>, \<open>cellH\<close>, \<open>gTop\<close>, the two tables) are arguments here.
\<close>

definition outerCellCenter :: "real \<Rightarrow> real \<Rightarrow> real \<Rightarrow> real \<Rightarrow> real \<Rightarrow> Point" where
  "outerCellCenter cellW cellH gTop row col =
     \<lparr>px = cellW * col + cellW / 2, py = gTop + cellH * row + cellH / 2\<rparr>"

definition resolveContainer :: "real \<Rightarrow> real \<Rightarrow> real \<Rightarrow> real \<Rightarrow> ContainerDef \<Rightarrow> ResolvedContainer" where
  "resolveContainer cellW cellH gTop mfPad cdef =
     (let insetF = orElse (insetFrac cdef) DEFAULT_CONTAINER_INSET_FRAC;
          lft = cellW * span_fromCol cdef + cellW * insetF;
          rgt = cellW * (span_toCol cdef + 1) - cellW * insetF;
          rowMidY = py (outerCellCenter cellW cellH gTop (span_fromRow cdef) 0);
          tp = rowMidY - cellH * 0.52;
          bot = rowMidY + cellH * 0.52;
          w = rgt - lft;
          h = bot - tp;
          innerLeft = lft + mfPad;
          innerRight = rgt - mfPad;
          innerTop = tp + mfPad + CONTAINER_LABEL_H;
          innerBottom = bot - mfPad;
          innerW = innerRight - innerLeft;
          innerH = innerBottom - innerTop;
          innerCellW = innerW / innerGrid_cols cdef;
          innerCellH = innerH
      in \<lparr>rc_def = cdef, rc_left = lft, rc_top = tp, rc_width = w, rc_height = h,
          labelHeight = CONTAINER_LABEL_H,
          innerGrid = \<lparr>inner_left = innerLeft, inner_top = innerTop,
                       inner_cellWidth = innerCellW, inner_cellHeight = innerCellH\<rparr>\<rparr>)"

definition resolveContainers ::
  "real \<Rightarrow> real \<Rightarrow> real \<Rightarrow> real \<Rightarrow> ContainerDef list \<Rightarrow> (string \<rightharpoonup> ResolvedContainer)" where
  "resolveContainers cellW cellH gTop mfPad ks =
     fold (\<lambda>cdef tbl. tbl(container_id cdef \<mapsto> resolveContainer cellW cellH gTop mfPad cdef))
       ks Map.empty"

definition innerCellCenter :: "(string \<rightharpoonup> ResolvedContainer) \<Rightarrow> string \<Rightarrow> real \<Rightarrow> error + Point" where
  "innerCellCenter rcs containerId col =
     (case rcs containerId of
        None \<Rightarrow> Inl (ContainerNotFound containerId)
      | Some c \<Rightarrow>
          Inr \<lparr>px = inner_left (innerGrid c) + inner_cellWidth (innerGrid c) * col
                     + inner_cellWidth (innerGrid c) / 2,
               py = inner_top (innerGrid c) + inner_cellHeight (innerGrid c) / 2\<rparr>)"

text \<open>
  The condition of the first branch of the loop over the nodes,
  \<^verbatim>\<open>isInner && ndef.container && ndef.innerCol != null\<close>: the container id is present and
  not the empty string, and the inner column is present.
\<close>

definition innerPlacement :: "NodeDef \<Rightarrow> (string \<times> real) option" where
  "innerPlacement ndef =
     (case container ndef of
        None \<Rightarrow> None
      | Some cont \<Rightarrow>
          (if cont = [] then None
           else (case innerCol ndef of None \<Rightarrow> None | Some icol \<Rightarrow> Some (cont, icol))))"

text \<open>
  One iteration of the loop over the nodes. In the first branch the container is read from
  the table a second time, after \<^verbatim>\<open>innerCellCenter\<close> has found it.
\<close>

definition resolveNode ::
  "real \<Rightarrow> real \<Rightarrow> real \<Rightarrow> (string \<rightharpoonup> ResolvedContainer) \<Rightarrow> NodeDef \<Rightarrow> error + ResolvedNode" where
  "resolveNode cellW cellH gTop rcs ndef =
     (let inner = (container ndef \<noteq> None)
      in case innerPlacement ndef of
           Some (cont, icol) \<Rightarrow>
             bindE (innerCellCenter rcs cont icol) (\<lambda>ctr.
               (case rcs cont of
                  None \<Rightarrow> Inl (ContainerNotFound cont)
                | Some c \<Rightarrow>
                    Inr \<lparr>rn_def = ndef, center = ctr,
                         rn_width = inner_cellWidth (innerGrid c) * INNER_BOX_W_FRAC,
                         rn_height = inner_cellHeight (innerGrid c) * INNER_BOX_H_FRAC,
                         isInner = inner\<rparr>))
         | None \<Rightarrow>
             (case alignToInnerCol ndef of
                Some (acont, acol) \<Rightarrow>
                  bindE (innerCellCenter rcs acont acol) (\<lambda>ip.
                    Inr \<lparr>rn_def = ndef,
                         center = \<lparr>px = px ip,
                                    py = py (outerCellCenter cellW cellH gTop
                                               (position_row ndef) (position_col ndef))\<rparr>,
                         rn_width = cellW * OUTER_BOX_W_FRAC,
                         rn_height = cellH * orElse (boxHeightFrac ndef) OUTER_BOX_H_FRAC,
                         isInner = inner\<rparr>)
              | None \<Rightarrow>
                  (let wCols = orElse (widthCols ndef) 1;
                       hRows = orElse (heightRows ndef) 1;
                       startCenter = outerCellCenter cellW cellH gTop
                                       (position_row ndef) (position_col ndef);
                       defaultHFrac = (if hRows > 1 then hRows * 0.72
                                       else if wCols > 1 then 0.52 else OUTER_BOX_H_FRAC)
                   in Inr \<lparr>rn_def = ndef,
                           center = \<lparr>px = px startCenter + (cellW * (wCols - 1)) / 2,
                                      py = py startCenter + (cellH * (hRows - 1)) / 2\<rparr>,
                           rn_width = cellW * (if wCols > 1 then wCols * 0.92
                                               else OUTER_BOX_W_FRAC),
                           rn_height = cellH * orElse (boxHeightFrac ndef) defaultHFrac,
                           isInner = inner\<rparr>)))"

definition resolveNodes ::
  "real \<Rightarrow> real \<Rightarrow> real \<Rightarrow> (string \<rightharpoonup> ResolvedContainer) \<Rightarrow> NodeDef list
     \<Rightarrow> error + (string \<rightharpoonup> ResolvedNode)" where
  "resolveNodes cellW cellH gTop rcs ns =
     foldE (\<lambda>ndef tbl. bindE (resolveNode cellW cellH gTop rcs ndef)
                          (\<lambda>r. Inr (tbl(node_id ndef \<mapsto> r))))
       ns Map.empty"

definition nodeEdge :: "(string \<rightharpoonup> ResolvedNode) \<Rightarrow> string \<Rightarrow> Edge \<Rightarrow> error + Point" where
  "nodeEdge rns nodeId edge =
     (case rns nodeId of
        None \<Rightarrow> Inl (NodeNotFound nodeId)
      | Some n \<Rightarrow>
          (let hbw = rn_width n / 2;
               hbh = rn_height n / 2
           in Inr (case edge of
                     EdgeRight \<Rightarrow> \<lparr>px = px (center n) + hbw, py = py (center n)\<rparr>
                   | EdgeLeft \<Rightarrow> \<lparr>px = px (center n) - hbw, py = py (center n)\<rparr>
                   | EdgeTop \<Rightarrow> \<lparr>px = px (center n), py = py (center n) - hbh\<rparr>
                   | EdgeBottom \<Rightarrow> \<lparr>px = px (center n), py = py (center n) + hbh\<rparr>)))"

definition containerEdge ::
  "(string \<rightharpoonup> ResolvedContainer) \<Rightarrow> string \<Rightarrow> SideEdge \<Rightarrow> real \<Rightarrow> error + Point" where
  "containerEdge rcs containerId edge yy =
     (case rcs containerId of
        None \<Rightarrow> Inl (ContainerNotFound containerId)
      | Some c \<Rightarrow>
          Inr \<lparr>px = (if edge = SideLeft then rc_left c else rc_left c + rc_width c), py = yy\<rparr>)"

definition inferEdge :: "Point \<Rightarrow> Point \<Rightarrow> Edge" where
  "inferEdge fromP toP =
     (let dx = px toP - px fromP;
          dy = py toP - py fromP
      in if \<bar>dx\<bar> > \<bar>dy\<bar> then (if dx > 0 then EdgeRight else EdgeLeft)
         else (if dy > 0 then EdgeBottom else EdgeTop))"

definition getTargetCenter ::
  "real \<Rightarrow> real \<Rightarrow> real \<Rightarrow> (string \<rightharpoonup> ResolvedNode) \<Rightarrow> (string \<rightharpoonup> ResolvedContainer)
     \<Rightarrow> ConnectionTarget \<Rightarrow> error + Point" where
  "getTargetCenter cellW cellH gTop rns rcs tgt =
     (case tgt of
        NodeRef n \<Rightarrow>
          (case rns n of None \<Rightarrow> Inl (NodeNotFound n) | Some r \<Rightarrow> Inr (center r))
      | ContainerRef cont edge \<Rightarrow>
          (case rcs cont of
             None \<Rightarrow> Inl (ContainerNotFound cont)
           | Some c \<Rightarrow>
               (let yy = py (outerCellCenter cellW cellH gTop (span_fromRow (rc_def c)) 0)
                in containerEdge rcs cont edge yy)))"

definition isHorizontal :: "Edge \<Rightarrow> bool" where
  "isHorizontal e = (e = EdgeRight \<or> e = EdgeLeft)"

definition isVertical :: "Edge \<Rightarrow> bool" where
  "isVertical e = (e = EdgeTop \<or> e = EdgeBottom)"

definition autoRoute :: "Point \<Rightarrow> Edge \<Rightarrow> Point \<Rightarrow> Edge \<Rightarrow> Point list" where
  "autoRoute fromP fromE toP toE =
     (if \<bar>py fromP - py toP\<bar> < 1 then [fromP, toP]
      else if \<bar>px fromP - px toP\<bar> < 1 then [fromP, toP]
      else if isHorizontal fromE \<and> isHorizontal toE then
        (let midX = (px fromP + px toP) / 2
         in [fromP, \<lparr>px = midX, py = py fromP\<rparr>, \<lparr>px = midX, py = py toP\<rparr>, toP])
      else if isVertical fromE \<and> isVertical toE then [fromP, toP]
      else
        (let midY = (py fromP + py toP) / 2
         in [fromP, \<lparr>px = px fromP, py = midY\<rparr>, \<lparr>px = px toP, py = midY\<rparr>, toP]))"

text \<open>
  The two local constants \<^verbatim>\<open>fromEdge\<close> and \<^verbatim>\<open>toEdge\<close> of the loop over the connections:
  the explicit edge of the definition, or else the inferred edge for a node endpoint and
  the reference's own side for a container endpoint.
\<close>

definition sideToEdge :: "SideEdge \<Rightarrow> Edge" where
  "sideToEdge s = (if s = SideLeft then EdgeLeft else EdgeRight)"

definition usedFromEdge :: "ConnectionDef \<Rightarrow> Point \<Rightarrow> Point \<Rightarrow> Edge" where
  "usedFromEdge cdef fromCenter toCenter =
     (case fromEdge cdef of
        Some e \<Rightarrow> e
      | None \<Rightarrow>
          (case cfrom cdef of
             NodeRef n \<Rightarrow> inferEdge fromCenter toCenter
           | ContainerRef cont s \<Rightarrow> sideToEdge s))"

definition usedToEdge :: "ConnectionDef \<Rightarrow> Point \<Rightarrow> Point \<Rightarrow> Edge" where
  "usedToEdge cdef fromCenter toCenter =
     (case toEdge cdef of
        Some e \<Rightarrow> e
      | None \<Rightarrow>
          (case cto cdef of
             NodeRef n \<Rightarrow> inferEdge toCenter fromCenter
           | ContainerRef cont s \<Rightarrow> sideToEdge s))"

definition anchorPoint ::
  "(string \<rightharpoonup> ResolvedNode) \<Rightarrow> (string \<rightharpoonup> ResolvedContainer) \<Rightarrow> ConnectionTarget \<Rightarrow> Edge
     \<Rightarrow> Point \<Rightarrow> error + Point" where
  "anchorPoint rns rcs tgt edge ctr =
     (case tgt of
        NodeRef n \<Rightarrow> nodeEdge rns n edge
      | ContainerRef cont s \<Rightarrow> containerEdge rcs cont s (py ctr))"

definition resolveConnection ::
  "real \<Rightarrow> real \<Rightarrow> real \<Rightarrow> (string \<rightharpoonup> ResolvedNode) \<Rightarrow> (string \<rightharpoonup> ResolvedContainer)
     \<Rightarrow> ConnectionDef \<Rightarrow> error + ResolvedConnection" where
  "resolveConnection cellW cellH gTop rns rcs cdef =
     bindE (getTargetCenter cellW cellH gTop rns rcs (cfrom cdef)) (\<lambda>fromCenter.
     bindE (getTargetCenter cellW cellH gTop rns rcs (cto cdef)) (\<lambda>toCenter.
       (let fromE = usedFromEdge cdef fromCenter toCenter;
            toE = usedToEdge cdef fromCenter toCenter
        in bindE (anchorPoint rns rcs (cfrom cdef) fromE fromCenter) (\<lambda>fromPoint.
           bindE (anchorPoint rns rcs (cto cdef) toE toCenter) (\<lambda>toPoint.
             (let pts = (case waypoints cdef of
                           Some ws \<Rightarrow> [fromPoint] @ ws @ [toPoint]
                         | None \<Rightarrow> autoRoute fromPoint fromE toPoint toE)
              in Inr \<lparr>conn_def = cdef, rconn_id = getConnectionId cdef, points = pts\<rparr>))))))"



section \<open>Notions used in the statements\<close>

definition unit_interval :: "real \<Rightarrow> bool" where
  "unit_interval v = (0 \<le> v \<and> v \<le> 1)"







text \<open>
  The flattening of a step in the words of the specification: the events of a step placed
  at the cursor \<open>c\<close> under the inherited group \<open>pg\<close>, and the number of frames by which
  the step advances the cursor. A parallel step places every child at the same cursor and
  advances by the longest child, counted from 0.
\<close>

fun flatEventsOf :: "real \<Rightarrow> string option \<Rightarrow> real \<Rightarrow> AnimationStep \<Rightarrow> FlatEvent list" where
  "flatEventsOf fps pg c (HoldStep d) =
     [\<lparr>action = hold, source = FromStep, target = None, startFrame = c,
       durationFrames = Math_round (d * fps), step = None, group = None\<rparr>]"
| "flatEventsOf fps pg c (Leaf a tgt d lbl g) =
     [\<lparr>action = Act a, source = FromStep, target = Some tgt, startFrame = c,
       durationFrames = Math_round ((case d of Some v \<Rightarrow> v | None \<Rightarrow> getDefaultDuration a) * fps),
       step = lbl, group = nullish g pg\<rparr>]"
| "flatEventsOf fps pg c (Parallel steps g) =
     concat (map (flatEventsOf fps (nullish g pg) c) steps)"

fun stepDuration :: "real \<Rightarrow> AnimationStep \<Rightarrow> real" where
  "stepDuration fps (HoldStep d) = Math_round (d * fps)"
| "stepDuration fps (Leaf a tgt d lbl g) =
     Math_round ((case d of Some v \<Rightarrow> v | None \<Rightarrow> getDefaultDuration a) * fps)"
| "stepDuration fps (Parallel steps g) = fold max (map (stepDuration fps) steps) 0"

text \<open>No step, and no phase, has a negative number of frames.\<close>

fun nonnegStep :: "real \<Rightarrow> AnimationStep \<Rightarrow> bool" where
  "nonnegStep fps (HoldStep d) = (0 \<le> Math_round (d * fps))"
| "nonnegStep fps (Leaf a tgt d lbl g) =
     (0 \<le> Math_round ((case d of Some v \<Rightarrow> v | None \<Rightarrow> getDefaultDuration a) * fps))"
| "nonnegStep fps (Parallel steps g) = list_all (nonnegStep fps) steps"

fun nonnegPhase :: "real \<Rightarrow> Phase \<Rightarrow> bool" where
  "nonnegPhase fps (HoldPhase d) = (0 \<le> Math_round (d * fps))"
| "nonnegPhase fps (DimPhase d) = (0 \<le> Math_round (d * fps))"
| "nonnegPhase fps (RevealPhase d) = (0 \<le> Math_round (d * fps))"
| "nonnegPhase fps (SequencePhase steps) = list_all (nonnegStep fps) steps"

text \<open>Every event of the list lies between the frames \<open>lo\<close> and \<open>hi\<close>.\<close>

definition eventsWithin :: "real \<Rightarrow> real \<Rightarrow> FlatEvent list \<Rightarrow> bool" where
  "eventsWithin lo hi evs =
     list_all (\<lambda>e. lo \<le> startFrame e \<and> startFrame e + durationFrames e \<le> hi) evs"

text \<open>
  The ranges the evaluator passes to \<^verbatim>\<open>interpolate\<close> are strictly increasing when every
  animation event lasts at least one frame and the two fixed intervals, of 0.4 seconds
  each, round to at least one frame.
\<close>

definition rangesValid :: "real \<Rightarrow> FlatEvent list \<Rightarrow> bool" where
  "rangesValid fps animEvents =
     (0 < Math_round (FADE_OUT_S * fps) \<and> 0 < Math_round (DEFAULT_DRAW_DURATION * fps)
      \<and> list_all (\<lambda>e. 0 < durationFrames e) animEvents)"

section \<open>A sample diagram\<close>

text \<open>
  Two nodes, the second inside a container, one connection between them and a timeline
  with both bookends. At 30 frames per second the events are: hold 0--30, dim 30--60,
  fillBox A 60--84, drawLine 84--96, fillBox B 96--120, showContainer 120--132,
  dimBox A 132--156, reveal 156--186.
\<close>

definition sample_nodes :: "NodeDef list" where
  "sample_nodes =
     [\<lparr>node_id = ''A'', position_row = 0, position_col = 0, container = None,
       innerCol = None, alignToInnerCol = None, widthCols = None, heightRows = None,
       boxHeightFrac = None\<rparr>,
      \<lparr>node_id = ''B'', position_row = 0, position_col = 1, container = Some ''K'',
       innerCol = Some 0, alignToInnerCol = None, widthCols = None, heightRows = None,
       boxHeightFrac = None\<rparr>]"

definition sample_containers :: "ContainerDef list" where
  "sample_containers =
     [\<lparr>container_id = ''K'', span_fromRow = 0, span_toRow = 0, span_fromCol = 1,
       span_toCol = 2, innerGrid_cols = 2, insetFrac = None\<rparr>]"

definition sample_connections :: "ConnectionDef list" where
  "sample_connections =
     [\<lparr>conn_id = None, cfrom = NodeRef ''A'', cto = NodeRef ''B'', fromEdge = None,
       toEdge = None, waypoints = None\<rparr>]"

definition sample_timeline :: Timeline where
  "sample_timeline =
     [HoldPhase 1, DimPhase 1,
      SequencePhase
        [Leaf fillBox ''A'' None (Some \<lparr>label_num = 1, label_text = ''one''\<rparr>) (Some ''g''),
         Leaf drawLine ''A->B'' None None (Some ''g''),
         Leaf fillBox ''B'' None (Some \<lparr>label_num = 2, label_text = ''two''\<rparr>) None,
         Leaf showContainer ''K'' None None None,
         Leaf dimBox ''A'' None None None],
      RevealPhase 1]"

definition sample_events :: "FlatEvent list" where
  "sample_events =
     [\<lparr>action = hold, source = FromPhase, target = None, startFrame = 0,
       durationFrames = 30, step = None, group = None\<rparr>,
      \<lparr>action = dim, source = FromPhase, target = None, startFrame = 30,
       durationFrames = 30, step = None, group = None\<rparr>,
      \<lparr>action = Act fillBox, source = FromStep, target = Some ''A'', startFrame = 60,
       durationFrames = 24, step = Some \<lparr>label_num = 1, label_text = ''one''\<rparr>,
       group = Some ''g''\<rparr>,
      \<lparr>action = Act drawLine, source = FromStep, target = Some ''A->B'', startFrame = 84,
       durationFrames = 12, step = None, group = Some ''g''\<rparr>,
      \<lparr>action = Act fillBox, source = FromStep, target = Some ''B'', startFrame = 96,
       durationFrames = 24, step = Some \<lparr>label_num = 2, label_text = ''two''\<rparr>,
       group = None\<rparr>,
      \<lparr>action = Act showContainer, source = FromStep, target = Some ''K'', startFrame = 120,
       durationFrames = 12, step = None, group = None\<rparr>,
      \<lparr>action = Act dimBox, source = FromStep, target = Some ''A'', startFrame = 132,
       durationFrames = 24, step = None, group = None\<rparr>,
      \<lparr>action = reveal, source = FromPhase, target = None, startFrame = 156,
       durationFrames = 30, step = None, group = None\<rparr>]"





text \<open>A parallel step with a group: a pause, a box without a group of its own and a line
  with one.\<close>

definition sample_parallel :: AnimationStep where
  "sample_parallel =
     Parallel [HoldStep 1, Leaf fillBox ''A'' None None None,
               Leaf drawLine ''A->B'' None None (Some ''own'')] (Some ''g'')"

text \<open>A node is dimmed in the sequence and the diagram is revealed afterwards.\<close>

definition dimmed_timeline :: Timeline where
  "dimmed_timeline = [SequencePhase [Leaf dimBox ''A'' None None None], RevealPhase 1]"

text \<open>A sequence with no bookend and no step that draws the connection.\<close>

definition bare_timeline :: Timeline where
  "bare_timeline = [SequencePhase [Leaf fillBox ''A'' None None None]]"

text \<open>
  Seven box fills of a third of a second each, two of them in the group \<open>g\<close> and two in
  the group \<open>h\<close>; at 30 frames per second each lasts 10 frames.
\<close>

definition grouped_timeline :: Timeline where
  "grouped_timeline =
     [SequencePhase
        [Leaf fillBox ''A'' (Some (1 / 3)) None (Some ''g''),
         Leaf fillBox ''C'' (Some (1 / 3)) None (Some ''h''),
         Leaf fillBox ''B'' (Some (1 / 3)) None (Some ''g''),
         Leaf fillBox ''D'' (Some (1 / 3)) None None,
         Leaf fillBox ''E'' (Some (1 / 3)) None (Some ''h''),
         Leaf fillBox ''F'' (Some (1 / 3)) None None,
         Leaf fillBox ''G'' (Some (1 / 3)) None None]]"

definition fillEvent :: "string \<Rightarrow> real \<Rightarrow> string option \<Rightarrow> FlatEvent" where
  "fillEvent t start g =
     \<lparr>action = Act fillBox, source = FromStep, target = Some t, startFrame = start,
      durationFrames = 10, step = None, group = g\<rparr>"

definition grouped_events :: "FlatEvent list" where
  "grouped_events =
     [fillEvent ''A'' 0 (Some ''g''), fillEvent ''C'' 10 (Some ''h''),
      fillEvent ''B'' 20 (Some ''g''), fillEvent ''D'' 30 None,
      fillEvent ''E'' 40 (Some ''h''), fillEvent ''F'' 50 None,
      fillEvent ''G'' 60 None]"

section \<open>Exceptions and loops\<close>

lemma bindE_Inr_iff: "bindE m f = Inr r \<longleftrightarrow> (\<exists>v. m = Inr v \<and> f v = Inr r)"
  by (cases m) (auto simp: bindE_def)

lemma bindE_Inr [simp]: "bindE (Inr v) f = f v"
  by (simp add: bindE_def)

lemma bindE_Inl [simp]: "bindE (Inl e) f = Inl e"
  by (simp add: bindE_def)

lemma foldE_invariant:
  assumes "foldE f xs s = Inr s'" and "P s"
    and "\<And>x a b. x \<in> set xs \<Longrightarrow> P a \<Longrightarrow> f x a = Inr b \<Longrightarrow> P b"
  shows "P s'"
  using assms
proof (induction xs arbitrary: s)
  case Nil
  then show ?case by simp
next
  case (Cons x xs)
  from Cons.prems(1) obtain m where m: "f x s = Inr m" "foldE f xs m = Inr s'"
    by (auto simp: bindE_Inr_iff)
  have "P m" using Cons.prems(2,3) m(1) by auto
  then show ?case using Cons.IH [OF m(2)] Cons.prems(3) by auto
qed

lemma foldE_reaches:
  assumes "foldE f xs s = Inr s'" and "x \<in> set xs"
    and "\<And>a b. f x a = Inr b \<Longrightarrow> Q b"
    and "\<And>z a b. z \<in> set xs \<Longrightarrow> Q a \<Longrightarrow> f z a = Inr b \<Longrightarrow> Q b"
  shows "Q s'"
  using assms
proof (induction xs arbitrary: s)
  case Nil
  then show ?case by simp
next
  case (Cons z zs)
  from Cons.prems(1) obtain m where m: "f z s = Inr m" "foldE f zs m = Inr s'"
    by (auto simp: bindE_Inr_iff)
  show ?case
  proof (cases "x = z")
    case True
    then have "Q m" using Cons.prems(3) m(1) by auto
    then show ?thesis
      using foldE_invariant [OF m(2), of Q] Cons.prems(4) by auto
  next
    case False
    then have xin: "x \<in> set zs" using Cons.prems(2) by auto
    have stepQ: "\<And>w a b. w \<in> set zs \<Longrightarrow> Q a \<Longrightarrow> f w a = Inr b \<Longrightarrow> Q b"
      using Cons.prems(4) by (meson list.set_intros(2))
    show ?thesis
      by (rule Cons.IH [OF m(2) xin Cons.prems(3) stepQ])
  qed
qed

section \<open>The interpolation primitive\<close>

lemma interpolate_ramp:
  "interpolate f [a, b] [0, 1] =
     (if a < b then Inr (if f \<le> a then 0 else if b \<le> f then 1 else (f - a) / (b - a))
      else Inl InputRangeNotIncreasing)"
  by (auto simp: interpolate_def findRange_def interpolateFunction_def Let_def)

lemma interpolate_ramp_down:
  "interpolate f [a, b] [1, 0] =
     (if a < b then Inr (if f \<le> a then 1 else if b \<le> f then 0 else 1 - (f - a) / (b - a))
      else Inl InputRangeNotIncreasing)"
  by (auto simp: interpolate_def findRange_def interpolateFunction_def Let_def field_simps)

lemma interpolate_envelope:
  "interpolate f [a, b, c, d] [0, 1, 1, 0] =
     (if a < b \<and> b < c \<and> c < d
      then Inr (if f \<le> a then 0 else if f \<le> b then (f - a) / (b - a)
                else if f \<le> c then 1 else if d \<le> f then 0 else 1 - (f - c) / (d - c))
      else Inl InputRangeNotIncreasing)"
  by (auto simp: interpolate_def findRange_def interpolateFunction_def Let_def field_simps)

lemma frac_bounds:
  fixes f a b :: real
  assumes "a < b" "a \<le> f" "f \<le> b"
  shows "0 \<le> (f - a) / (b - a)" "(f - a) / (b - a) \<le> 1"
  using assms by (simp_all add: divide_le_eq)

lemma ramp_bounds:
  assumes "interpolate f [a, b] [0, 1] = Inr v"
  shows "0 \<le> v \<and> v \<le> 1"
proof -
  have ab: "a < b" using assms by (simp add: interpolate_ramp split: if_splits)
  have v: "v = (if f \<le> a then 0 else if b \<le> f then 1 else (f - a) / (b - a))"
    using assms ab by (simp add: interpolate_ramp)
  show ?thesis
    using v ab frac_bounds [of a b f] by (auto split: if_splits)
qed

lemma ramp_down_bounds:
  assumes "interpolate f [a, b] [1, 0] = Inr v"
  shows "0 \<le> v \<and> v \<le> 1"
proof -
  have ab: "a < b" using assms by (simp add: interpolate_ramp_down split: if_splits)
  have v: "v = (if f \<le> a then 1 else if b \<le> f then 0 else 1 - (f - a) / (b - a))"
    using assms ab by (simp add: interpolate_ramp_down)
  show ?thesis
    using v ab frac_bounds [of a b f] by (auto split: if_splits)
qed

lemma envelope4_bounds:
  assumes "interpolate f [a, b, c, d] [0, 1, 1, 0] = Inr v"
  shows "0 \<le> v \<and> v \<le> 1"
proof -
  have ord: "a < b \<and> b < c \<and> c < d"
    using assms by (simp add: interpolate_envelope split: if_splits)
  have v: "v = (if f \<le> a then 0 else if f \<le> b then (f - a) / (b - a)
                else if f \<le> c then 1 else if d \<le> f then 0 else 1 - (f - c) / (d - c))"
    using assms ord by (simp add: interpolate_envelope)
  show ?thesis
    using v ord frac_bounds [of a b f] frac_bounds [of c d f] by (auto split: if_splits)
qed

section \<open>Bounds of the evaluator\<close>

lemma eventEnvelope_bounds:
  "eventEnvelope frame fps animEvents tbl evt i = Inr v \<Longrightarrow> 0 \<le> v \<and> v \<le> 1"
  unfolding eventEnvelope_def Let_def
  by (cases "fadeOutStartOf animEvents tbl evt i") (auto dest: ramp_bounds envelope4_bounds)

lemma eventDrawProgress_bounds:
  "eventDrawProgress frame evt = Inr v \<Longrightarrow> 0 \<le> v \<and> v \<le> 1"
  unfolding eventDrawProgress_def by (rule ramp_bounds)


lemma foldE_states:
  assumes "foldE (\<lambda>i states. bindE (g i) (\<lambda>s. Inr (states(i \<mapsto> s)))) ids m0 = Inr m"
  shows "(\<forall>i\<in>set ids. \<exists>s. m i = Some s \<and> g i = Inr s)
       \<and> (\<forall>i. i \<notin> set ids \<longrightarrow> m i = m0 i)"
  using assms
proof (induction ids arbitrary: m0)
  case Nil
  then show ?case by simp
next
  case (Cons k ks)
  from Cons.prems obtain s where s: "g k = Inr s"
    and rest: "foldE (\<lambda>i states. bindE (g i) (\<lambda>s. Inr (states(i \<mapsto> s)))) ks (m0(k \<mapsto> s)) = Inr m"
    by (auto simp only: foldE.simps bindE_Inr_iff sum.inject)
  note ih = Cons.IH [OF rest]
  show ?case
  proof (intro conjI ballI allI impI)
    fix i assume "i \<in> set (k # ks)"
    show "\<exists>s. m i = Some s \<and> g i = Inr s"
    proof (cases "i \<in> set ks")
      case True
      then show ?thesis using ih by blast
    next
      case False
      then have "i = k" using \<open>i \<in> set (k # ks)\<close> by simp
      moreover have "m i = (m0(k \<mapsto> s)) i" using ih False by blast
      ultimately show ?thesis using s by simp
    qed
  next
    fix i assume "i \<notin> set (k # ks)"
    then have "i \<notin> set ks" "i \<noteq> k" by auto
    then show "m i = m0 i" using ih by auto
  qed
qed

lemma buildStates_entries:
  assumes "buildStates g ids = Inr m"
  shows "i \<in> set ids \<Longrightarrow> \<exists>s. m i = Some s \<and> g i = Inr s"
    and "m i = Some s \<Longrightarrow> i \<in> set ids \<and> g i = Inr s"
proof -
  note fs = foldE_states [OF assms [unfolded buildStates_def]]
  show "i \<in> set ids \<Longrightarrow> \<exists>s. m i = Some s \<and> g i = Inr s" using fs by blast
  show "m i = Some s \<Longrightarrow> i \<in> set ids \<and> g i = Inr s"
  proof -
    assume a: "m i = Some s"
    have "i \<in> set ids"
    proof (rule ccontr)
      assume "i \<notin> set ids"
      then have "m i = Map.empty i" using fs by blast
      then show False using a by simp
    qed
    then show ?thesis using fs a by fastforce
  qed
qed

lemma computeGlobals_total:
  "\<exists>flr opac. computeGlobals events frame = Inr (flr, opac) \<and> 0 \<le> flr \<and> flr \<le> 1"
  unfolding computeGlobals_def Let_def
  by (auto simp: interpolate_ramp interpolate_ramp_down divide_le_eq
      split: option.splits)

lemma useTimeline_SomeD:
  assumes "useTimeline timeline ns cs ks frame fps = Inr (Some st)"
  defines "events \<equiv> flattenTimeline timeline fps"
  defines "animEvents \<equiv> filter isAnimEvent events"
  defines "tbl \<equiv> groupLatestTriggerFrame animEvents"
  defines "flowEnd \<equiv> flowEndOf events animEvents fps"
  shows "computeGlobals events frame = Inr (globalFloor st, globalOpacity st)"
    and "nodeStatesOf frame fps animEvents tbl (globalFloor st) ns = Inr (nodes st)"
    and "connStatesOf frame fps animEvents tbl (globalFloor st) flowEnd cs = Inr (connections st)"
    and "containerStatesOf frame fps animEvents tbl (globalFloor st) ns (nodes st) ks
           = Inr (containers st)"
    and "1 < fps" and "timeline \<noteq> []"
  using assms(1)
  unfolding useTimeline_def events_def animEvents_def tbl_def flowEnd_def Let_def
  by (auto simp: bindE_Inr_iff split: if_splits prod.splits)


lemma nodeStep_cases:
  assumes "nodeStep frame fps animEvents tbl nid i (mb, md, da) = Inr (mb', md', da')"
  shows "(if action (animEvents ! i) = Act fillBox \<and> target (animEvents ! i) = Some nid
          then \<exists>env d. eventEnvelope frame fps animEvents tbl (animEvents ! i) i = Inr env
                 \<and> eventDrawProgress frame (animEvents ! i) = Inr d
                 \<and> mb' = max mb env \<and> md' = max md d
          else mb' = mb \<and> md' = md)"
    and "(if action (animEvents ! i) = Act dimBox \<and> target (animEvents ! i) = Some nid
          then \<exists>d. eventDrawProgress frame (animEvents ! i) = Inr d \<and> da' = max da d
          else da' = da)"
  using assms unfolding nodeStep_def Let_def
  by (auto simp: bindE_Inr_iff split: if_splits)


lemma nodeStep_unit:
  assumes "nodeStep frame fps animEvents tbl nid i (mb, md, da) = Inr (mb', md', da')"
    and "unit_interval mb" "unit_interval md" "unit_interval da"
  shows "unit_interval mb' \<and> unit_interval md' \<and> unit_interval da'"
  using nodeStep_cases [OF assms(1)] assms(2-)
  by (auto simp: unit_interval_def split: if_splits
      dest!: eventEnvelope_bounds eventDrawProgress_bounds)

lemma nodeLoop_unit:
  assumes "foldE (nodeStep frame fps animEvents tbl nid) idxs (0, 0, 0) = Inr (mb, md, da)"
  shows "unit_interval mb \<and> unit_interval md \<and> unit_interval da"
proof -
  have "(\<lambda>(a, b, c). unit_interval a \<and> unit_interval b \<and> unit_interval c) (mb, md, da)"
  proof (rule foldE_invariant [OF assms])
    show "(\<lambda>(a, b, c). unit_interval a \<and> unit_interval b \<and> unit_interval c) (0, 0, 0)"
      by (simp add: unit_interval_def)
  next
    fix i a b
    assume "(\<lambda>(a, b, c). unit_interval a \<and> unit_interval b \<and> unit_interval c) a"
      and "nodeStep frame fps animEvents tbl nid i a = Inr b"
    then show "(\<lambda>(a, b, c). unit_interval a \<and> unit_interval b \<and> unit_interval c) b"
      by (cases a, cases b) (auto dest: nodeStep_unit)
  qed
  then show ?thesis by simp
qed

lemma nodeState_D:
  assumes "nodeState frame fps animEvents tbl flr nid = Inr s"
  obtains mb md da where
    "foldE (nodeStep frame fps animEvents tbl nid) [0..<length animEvents] (0, 0, 0)
       = Inr (mb, md, da)"
    "brightness s = max (max mb flr - da) 0"
    "drawProgress s = max md flr"
    "opacity s = DIM_NODE + (1 - DIM_NODE) * brightness s"
  using assms unfolding nodeState_def Let_def
  by (auto simp: bindE_Inr_iff)

lemma nodeState_unit:
  assumes "nodeState frame fps animEvents tbl flr nid = Inr s" and "unit_interval flr"
  shows "unit_interval (brightness s)" and "unit_interval (drawProgress s)"
    and "flr = 1 \<Longrightarrow> drawProgress s = 1"
proof -
  from assms(1) obtain mb md da where
    loop: "foldE (nodeStep frame fps animEvents tbl nid) [0..<length animEvents] (0, 0, 0)
       = Inr (mb, md, da)"
    and b: "brightness s = max (max mb flr - da) 0"
    and d: "drawProgress s = max md flr"
    by (rule nodeState_D)
  note u = nodeLoop_unit [OF loop]
  show "unit_interval (brightness s)" using u assms(2) b by (auto simp: unit_interval_def)
  show "unit_interval (drawProgress s)" using u assms(2) d by (auto simp: unit_interval_def)
  show "flr = 1 \<Longrightarrow> drawProgress s = 1" using u d by (auto simp: unit_interval_def)
qed


lemma drawProgress_before:
  "eventDrawProgress frame evt = Inr d \<Longrightarrow> frame \<le> startFrame evt \<Longrightarrow> d = 0"
  by (auto simp: eventDrawProgress_def interpolate_ramp split: if_splits)

lemma drawProgress_after:
  assumes "eventDrawProgress frame evt = Inr d" and "startFrame evt < frame"
  shows "0 < d"
proof -
  let ?a = "startFrame evt" and ?b = "startFrame evt + durationFrames evt"
  have ab: "?a < ?b"
    using assms(1) by (simp add: eventDrawProgress_def interpolate_ramp split: if_splits)
  have "d = (if ?b \<le> frame then 1 else (frame - ?a) / (?b - ?a))"
    using assms ab by (simp add: eventDrawProgress_def interpolate_ramp)
  then show ?thesis using ab assms(2) by (auto split: if_splits)
qed

lemma nodeLoop_dim_zero:
  assumes loop: "foldE (nodeStep frame fps animEvents tbl nid) [0..<length animEvents] (0, 0, 0)
                   = Inr (mb, md, da)"
    and nodim: "\<And>e. e \<in> set animEvents \<Longrightarrow> action e = Act dimBox \<Longrightarrow> target e = Some nid
                  \<Longrightarrow> frame \<le> startFrame e"
  shows "da = 0"
proof -
  have "(\<lambda>(a, b, c). c = 0) (mb, md, da)"
  proof (rule foldE_invariant [OF loop])
    show "(\<lambda>(a, b, c). c = 0) (0, 0, 0::real)" by simp
  next
    fix i :: nat and p q :: "real \<times> real \<times> real"
    assume i: "i \<in> set [0..<length animEvents]" and p: "(\<lambda>(a, b, c). c = 0) p"
      and st: "nodeStep frame fps animEvents tbl nid i p = Inr q"
    obtain a b c where pp: "p = (a, b, c)" by (cases p)
    obtain a' b' c' where qq: "q = (a', b', c')" by (cases q)
    have mem: "animEvents ! i \<in> set animEvents" using i by simp
    have "c' = 0"
      using nodeStep_cases(2) [OF st [unfolded pp qq]] p pp nodim [OF mem]
      by (auto split: if_splits dest: drawProgress_before)
    then show "(\<lambda>(a, b, c). c = 0) q" using qq by simp
  qed
  then show ?thesis by simp
qed

lemma nodeLoop_dim_pos:
  assumes loop: "foldE (nodeStep frame fps animEvents tbl nid) [0..<length animEvents] (0, 0, 0)
                   = Inr (mb, md, da)"
    and e: "e \<in> set animEvents" "action e = Act dimBox" "target e = Some nid"
           "startFrame e < frame"
  shows "0 < da"
proof -
  from e(1) obtain k where k: "k < length animEvents" "animEvents ! k = e"
    by (auto simp: in_set_conv_nth)
  have kin: "k \<in> set [0..<length animEvents]" using k by simp
  have "(\<lambda>(a, b, c). 0 < c) (mb, md, da)"
  proof (rule foldE_reaches [OF loop kin])
    fix p q :: "real \<times> real \<times> real"
    assume st: "nodeStep frame fps animEvents tbl nid k p = Inr q"
    obtain a b c where pp: "p = (a, b, c)" by (cases p)
    obtain a' b' c' where qq: "q = (a', b', c')" by (cases q)
    have "0 < c'"
      using nodeStep_cases(2) [OF st [unfolded pp qq]] k e
      by (auto dest: drawProgress_after)
    then show "(\<lambda>(a, b, c). 0 < c) q" using qq by simp
  next
    fix i :: nat and p q :: "real \<times> real \<times> real"
    assume p: "(\<lambda>(a, b, c). 0 < c) p"
      and st: "nodeStep frame fps animEvents tbl nid i p = Inr q"
    obtain a b c where pp: "p = (a, b, c)" by (cases p)
    obtain a' b' c' where qq: "q = (a', b', c')" by (cases q)
    have "0 < c'"
      using nodeStep_cases(2) [OF st [unfolded pp qq]] p pp
      by (auto split: if_splits)
    then show "(\<lambda>(a, b, c). 0 < c) q" using qq by simp
  qed
  then show ?thesis by simp
qed

lemma nodeState_floor_one:
  assumes st: "nodeState frame fps animEvents tbl 1 nid = Inr s"
  shows "(\<forall>e\<in>set animEvents. action e = Act dimBox \<and> target e = Some nid
            \<longrightarrow> frame \<le> startFrame e) \<Longrightarrow> brightness s = 1"
    and "(\<exists>e\<in>set animEvents. action e = Act dimBox \<and> target e = Some nid
            \<and> startFrame e < frame) \<Longrightarrow> brightness s < 1"
proof -
  from st obtain mb md da where
    loop: "foldE (nodeStep frame fps animEvents tbl nid) [0..<length animEvents] (0, 0, 0)
       = Inr (mb, md, da)"
    and b: "brightness s = max (max mb 1 - da) 0"
    by (rule nodeState_D)
  have mb: "max mb 1 = 1" using nodeLoop_unit [OF loop] by (simp add: unit_interval_def)
  show "brightness s = 1"
    if "\<forall>e\<in>set animEvents. action e = Act dimBox \<and> target e = Some nid
            \<longrightarrow> frame \<le> startFrame e"
  proof -
    have "da = 0" using nodeLoop_dim_zero [OF loop] that by blast
    then show ?thesis using b mb by simp
  qed
  show "brightness s < 1"
    if "\<exists>e\<in>set animEvents. action e = Act dimBox \<and> target e = Some nid
            \<and> startFrame e < frame"
  proof -
    have "0 < da" using nodeLoop_dim_pos [OF loop] that by blast
    then show ?thesis using b mb by simp
  qed
qed

lemma connStep_unit:
  assumes "connStep frame fps animEvents tbl cid i (mb, md) = Inr (mb', md')"
    and "unit_interval mb" "unit_interval md"
  shows "unit_interval mb' \<and> unit_interval md'"
  using assms unfolding connStep_def Let_def
  by (auto simp: bindE_Inr_iff unit_interval_def split: if_splits
      dest!: eventEnvelope_bounds eventDrawProgress_bounds)

lemma connLoop_unit:
  assumes "foldE (connStep frame fps animEvents tbl cid) idxs (0, 0) = Inr (mb, md)"
  shows "unit_interval mb \<and> unit_interval md"
proof -
  have "(\<lambda>(a, b). unit_interval a \<and> unit_interval b) (mb, md)"
  proof (rule foldE_invariant [OF assms])
    show "(\<lambda>(a, b). unit_interval a \<and> unit_interval b) (0, 0)"
      by (simp add: unit_interval_def)
  next
    fix i p q
    assume "(\<lambda>(a, b). unit_interval a \<and> unit_interval b) p"
      and "connStep frame fps animEvents tbl cid i p = Inr q"
    then show "(\<lambda>(a, b). unit_interval a \<and> unit_interval b) q"
      by (cases p, cases q) (auto dest: connStep_unit)
  qed
  then show ?thesis by simp
qed

lemma connState_D:
  assumes "connState frame fps animEvents tbl flr flowEnd cid = Inr s"
  obtains mb md finalRamp where
    "foldE (connStep frame fps animEvents tbl cid) [0..<length animEvents] (0, 0) = Inr (mb, md)"
    "interpolate frame [flowEnd - Math_round (DEFAULT_DRAW_DURATION * fps), flowEnd] [0, 1]
       = Inr finalRamp"
    "brightness s = max (max mb finalRamp) flr"
    "drawProgress s = max (max md flr) finalRamp"
    "opacity s = DIM_ARROW + (1 - DIM_ARROW) * brightness s"
  using assms unfolding connState_def Let_def
  by (auto simp: bindE_Inr_iff)

lemma connState_unit:
  assumes "connState frame fps animEvents tbl flr flowEnd cid = Inr s" and "unit_interval flr"
  shows "unit_interval (brightness s)" and "unit_interval (drawProgress s)"
    and "flr = 1 \<Longrightarrow> brightness s = 1 \<and> drawProgress s = 1"
    and "flowEnd \<le> frame \<Longrightarrow> brightness s = 1 \<and> drawProgress s = 1"
proof -
  from assms(1) obtain mb md finalRamp where
    loop: "foldE (connStep frame fps animEvents tbl cid) [0..<length animEvents] (0, 0)
             = Inr (mb, md)"
    and fr: "interpolate frame [flowEnd - Math_round (DEFAULT_DRAW_DURATION * fps), flowEnd] [0, 1]
       = Inr finalRamp"
    and b: "brightness s = max (max mb finalRamp) flr"
    and d: "drawProgress s = max (max md flr) finalRamp"
    by (rule connState_D)
  note u = connLoop_unit [OF loop]
  note r = ramp_bounds [OF fr]
  show "unit_interval (brightness s)" using u r assms(2) b by (auto simp: unit_interval_def)
  show "unit_interval (drawProgress s)" using u r assms(2) d by (auto simp: unit_interval_def)
  show "flr = 1 \<Longrightarrow> brightness s = 1 \<and> drawProgress s = 1"
    using u r b d by (auto simp: unit_interval_def)
  show "brightness s = 1 \<and> drawProgress s = 1" if "flowEnd \<le> frame"
  proof -
    have "finalRamp = 1"
      using fr that by (auto simp: interpolate_ramp split: if_splits)
    then show ?thesis using u assms(2) b d by (auto simp: unit_interval_def)
  qed
qed

lemma containerLoop_unit:
  assumes "foldE (containerStep frame fps animEvents tbl cid) idxs 0 = Inr mb"
  shows "unit_interval mb"
proof (rule foldE_invariant [OF assms])
  show "unit_interval 0" by (simp add: unit_interval_def)
next
  fix i p q
  assume "unit_interval p" and "containerStep frame fps animEvents tbl cid i p = Inr q"
  then show "unit_interval q"
    unfolding containerStep_def Let_def
    by (auto simp: bindE_Inr_iff unit_interval_def split: if_splits
        dest!: eventEnvelope_bounds)
qed

lemma memberLoop_unit:
  assumes "\<And>i s. nodeStates i = Some s \<Longrightarrow> unit_interval (brightness s)"
    and "unit_interval mb"
  shows "unit_interval (fold (memberStep nodeStates cid) ns mb)"
  using assms(2)
proof (induction ns arbitrary: mb)
  case Nil
  then show ?case by simp
next
  case (Cons n ns)
  have "unit_interval (memberStep nodeStates cid n mb)"
    using Cons.prems assms(1)
    by (auto simp: memberStep_def unit_interval_def split: option.splits)
  then show ?case using Cons.IH by simp
qed

lemma containerState_unit:
  assumes "containerState frame fps animEvents tbl flr ns nodeStates cid = Inr s"
    and "unit_interval flr"
    and "\<And>i s. nodeStates i = Some s \<Longrightarrow> unit_interval (brightness s)"
  shows "unit_interval (brightness s)" and "drawProgress s = 1"
    and "opacity s = DIM_CONTAINER + (1 - DIM_CONTAINER) * brightness s"
    and "flr = 1 \<Longrightarrow> brightness s = 1"
proof -
  from assms(1) obtain mb where
    loop: "foldE (containerStep frame fps animEvents tbl cid) [0..<length animEvents] 0 = Inr mb"
    and b: "brightness s = max (fold (memberStep nodeStates cid) ns mb) flr"
    and d: "drawProgress s = 1"
    and o: "opacity s = DIM_CONTAINER + (1 - DIM_CONTAINER) * brightness s"
    unfolding containerState_def Let_def by (auto simp: bindE_Inr_iff)
  have u: "unit_interval (fold (memberStep nodeStates cid) ns mb)"
    by (rule memberLoop_unit [OF assms(3) containerLoop_unit [OF loop]])
  show "unit_interval (brightness s)" using u assms(2) b by (auto simp: unit_interval_def)
  show "drawProgress s = 1" by (rule d)
  show "opacity s = DIM_CONTAINER + (1 - DIM_CONTAINER) * brightness s" by (rule o)
  show "flr = 1 \<Longrightarrow> brightness s = 1" using u b by (auto simp: unit_interval_def)
qed

section \<open>Evaluation of the sample\<close>

lemmas flatten_defs = flattenTimeline_def Math_round_def DEFAULT_FILL_DURATION_def
  DEFAULT_DRAW_DURATION_def DEFAULT_SHOW_DURATION_def nullish_def phaseEvent_def

lemmas eval_defs = computeGlobals_def bindE_def isAnimEvent_def
  groupLatestTriggerFrame_def groupPassStep_def computeFadeOutStart_def
  nodeStatesOf_def connStatesOf_def containerStatesOf_def buildStates_def
  nodeState_def nodeStep_def connState_def connStep_def containerState_def
  containerStep_def memberStep_def eventEnvelope_def eventDrawProgress_def fadeOutStartOf_def
  interpolate_def findRange_def interpolateFunction_def
  flowEndOf_def totalFramesOf_def maxOfList_def currentStepOf_def
  FADE_OUT_S_def FADE_OUT_LOOKAHEAD_NODE_def FADE_OUT_LOOKAHEAD_ARROW_def
  DIM_NODE_def DIM_ARROW_def DIM_CONTAINER_def getConnectionId_def
  Math_round_def DEFAULT_DRAW_DURATION_def Let_def

lemmas sample_defs = sample_events_def sample_nodes_def sample_connections_def
  sample_containers_def sample_timeline_def

lemma sample_flatten: "flattenTimeline sample_timeline 30 = sample_events"
  by (simp add: sample_timeline_def sample_events_def flatten_defs)

lemma dimmed_flatten:
  "flattenTimeline dimmed_timeline 30 =
     [\<lparr>action = Act dimBox, source = FromStep, target = Some ''A'', startFrame = 0,
       durationFrames = 24, step = None, group = None\<rparr>,
      \<lparr>action = reveal, source = FromPhase, target = None, startFrame = 24,
       durationFrames = 30, step = None, group = None\<rparr>]"
  by (simp add: dimmed_timeline_def flatten_defs)

section \<open>The global floor\<close>

lemma globalFloor_unit:
  assumes "useTimeline timeline ns cs ks frame fps = Inr (Some st)"
  shows "unit_interval (globalFloor st)"
  using computeGlobals_total [of "flattenTimeline timeline fps" frame]
    useTimeline_SomeD(1) [OF assms]
  by (auto simp: unit_interval_def)

lemma node_entry:
  assumes "useTimeline timeline ns cs ks frame fps = Inr (Some st)"
  shows "nodes st i = Some s \<Longrightarrow>
           nodeState frame fps (filter isAnimEvent (flattenTimeline timeline fps))
             (groupLatestTriggerFrame (filter isAnimEvent (flattenTimeline timeline fps)))
             (globalFloor st) i = Inr s"
    and "n \<in> set ns \<Longrightarrow> \<exists>s. nodes st (node_id n) = Some s"
  using buildStates_entries [OF useTimeline_SomeD(2) [OF assms, unfolded nodeStatesOf_def]]
  by (auto, force)

lemma conn_entry:
  assumes "useTimeline timeline ns cs ks frame fps = Inr (Some st)"
  shows "connections st i = Some s \<Longrightarrow>
           connState frame fps (filter isAnimEvent (flattenTimeline timeline fps))
             (groupLatestTriggerFrame (filter isAnimEvent (flattenTimeline timeline fps)))
             (globalFloor st)
             (flowEndOf (flattenTimeline timeline fps)
                (filter isAnimEvent (flattenTimeline timeline fps)) fps) i = Inr s"
    and "c \<in> set cs \<Longrightarrow> \<exists>s. connections st (getConnectionId c) = Some s"
  using buildStates_entries [OF useTimeline_SomeD(3) [OF assms, unfolded connStatesOf_def]]
  by (auto, force)

lemma container_entry:
  assumes "useTimeline timeline ns cs ks frame fps = Inr (Some st)"
  shows "containers st i = Some s \<Longrightarrow>
           containerState frame fps (filter isAnimEvent (flattenTimeline timeline fps))
             (groupLatestTriggerFrame (filter isAnimEvent (flattenTimeline timeline fps)))
             (globalFloor st) ns (nodes st) i = Inr s"
    and "k \<in> set ks \<Longrightarrow> \<exists>s. containers st (container_id k) = Some s"
  using buildStates_entries [OF useTimeline_SomeD(4) [OF assms, unfolded containerStatesOf_def]]
  by (auto, force)

lemma node_brightness_unit:
  assumes "useTimeline timeline ns cs ks frame fps = Inr (Some st)" and "nodes st i = Some s"
  shows "unit_interval (brightness s)"
  using nodeState_unit(1) [OF node_entry(1) [OF assms] globalFloor_unit [OF assms(1)]] .

lemma affine_bounds:
  fixes b dimFloor :: real
  assumes "0 \<le> b" "b \<le> 1" "0 \<le> dimFloor" "dimFloor \<le> 1"
  shows "dimFloor \<le> dimFloor + (1 - dimFloor) * b" "dimFloor + (1 - dimFloor) * b \<le> 1"
proof -
  have "0 \<le> (1 - dimFloor) * b" using assms by simp
  then show "dimFloor \<le> dimFloor + (1 - dimFloor) * b" by simp
  have "(1 - dimFloor) * b \<le> (1 - dimFloor) * 1"
    using assms by (intro mult_left_mono) auto
  then show "dimFloor + (1 - dimFloor) * b \<le> 1" by simp
qed

section \<open>Opacity\<close>

text \<open>
  Claim C9 (opacity derivation). In every state the hook returns, the opacity of every
  node, connection and container is \<open>dimFloor + (1 - dimFloor) * brightness\<close> of that
  element's returned brightness, with the dim floor 0.3 for nodes, 0.15 for connections
  and 0.3 for containers. The returned brightness lies between 0 and 1, so the opacity lies
  between the dim floor of the kind and 1.
\<close>

theorem opacity_derivation:
  assumes "useTimeline timeline ns cs ks frame fps = Inr (Some st)"
  shows "(\<forall>i s. nodes st i = Some s \<longrightarrow>
            opacity s = DIM_NODE + (1 - DIM_NODE) * brightness s
            \<and> 0 \<le> brightness s \<and> brightness s \<le> 1
            \<and> DIM_NODE \<le> opacity s \<and> opacity s \<le> 1)
       \<and> (\<forall>i s. connections st i = Some s \<longrightarrow>
            opacity s = DIM_ARROW + (1 - DIM_ARROW) * brightness s
            \<and> 0 \<le> brightness s \<and> brightness s \<le> 1
            \<and> DIM_ARROW \<le> opacity s \<and> opacity s \<le> 1)
       \<and> (\<forall>i s. containers st i = Some s \<longrightarrow>
            opacity s = DIM_CONTAINER + (1 - DIM_CONTAINER) * brightness s
            \<and> 0 \<le> brightness s \<and> brightness s \<le> 1
            \<and> DIM_CONTAINER \<le> opacity s \<and> opacity s \<le> 1)
       \<and> DIM_NODE = 0.3 \<and> DIM_ARROW = 0.15 \<and> DIM_CONTAINER = 0.3"
proof -
  note fl = globalFloor_unit [OF assms]
  have n: "opacity s = DIM_NODE + (1 - DIM_NODE) * brightness s
            \<and> 0 \<le> brightness s \<and> brightness s \<le> 1
            \<and> DIM_NODE \<le> opacity s \<and> opacity s \<le> 1" if "nodes st i = Some s" for i s
  proof -
    note e = node_entry(1) [OF assms that]
    have o: "opacity s = DIM_NODE + (1 - DIM_NODE) * brightness s"
      by (rule nodeState_D [OF e])
    have u: "0 \<le> brightness s" "brightness s \<le> 1"
      using nodeState_unit(1) [OF e fl] by (simp_all add: unit_interval_def)
    show ?thesis
      using o u affine_bounds [OF u, of DIM_NODE] by (simp add: DIM_NODE_def)
  qed
  have c: "opacity s = DIM_ARROW + (1 - DIM_ARROW) * brightness s
            \<and> 0 \<le> brightness s \<and> brightness s \<le> 1
            \<and> DIM_ARROW \<le> opacity s \<and> opacity s \<le> 1" if "connections st i = Some s" for i s
  proof -
    note e = conn_entry(1) [OF assms that]
    have o: "opacity s = DIM_ARROW + (1 - DIM_ARROW) * brightness s"
      by (rule connState_D [OF e])
    have u: "0 \<le> brightness s" "brightness s \<le> 1"
      using connState_unit(1) [OF e fl] by (simp_all add: unit_interval_def)
    show ?thesis
      using o u affine_bounds [OF u, of DIM_ARROW] by (simp add: DIM_ARROW_def)
  qed
  have k: "opacity s = DIM_CONTAINER + (1 - DIM_CONTAINER) * brightness s
            \<and> 0 \<le> brightness s \<and> brightness s \<le> 1
            \<and> DIM_CONTAINER \<le> opacity s \<and> opacity s \<le> 1" if "containers st i = Some s" for i s
  proof -
    note e = container_entry(1) [OF assms that]
    note cu = containerState_unit [OF e fl node_brightness_unit [OF assms]]
    have u: "0 \<le> brightness s" "brightness s \<le> 1"
      using cu(1) by (simp_all add: unit_interval_def)
    show ?thesis
      using cu(3) u affine_bounds [OF u, of DIM_CONTAINER] by (simp add: DIM_CONTAINER_def)
  qed
  have floors: "DIM_NODE = 0.3 \<and> DIM_ARROW = 0.15 \<and> DIM_CONTAINER = 0.3"
    by (simp add: DIM_NODE_def DIM_ARROW_def DIM_CONTAINER_def)
  show ?thesis
    using n c k floors by blast
qed

theorem opacity_derivation_witness:
  "\<exists>st sa sc sk.
     useTimeline sample_timeline sample_nodes sample_connections sample_containers 70 30
       = Inr (Some st)
     \<and> nodes st ''A'' = Some sa \<and> brightness sa = 5 / 12
     \<and> opacity sa = DIM_NODE + (1 - DIM_NODE) * brightness sa
     \<and> DIM_NODE \<le> opacity sa \<and> opacity sa \<le> 1
     \<and> connections st ''A->B'' = Some sc
     \<and> opacity sc = DIM_ARROW + (1 - DIM_ARROW) * brightness sc
     \<and> DIM_ARROW \<le> opacity sc \<and> opacity sc \<le> 1
     \<and> containers st ''K'' = Some sk
     \<and> opacity sk = DIM_CONTAINER + (1 - DIM_CONTAINER) * brightness sk
     \<and> DIM_CONTAINER \<le> opacity sk \<and> opacity sk \<le> 1"
proof -
  obtain st sa sc sk where
    ev: "useTimeline sample_timeline sample_nodes sample_connections sample_containers 70 30
           = Inr (Some st)"
    and a: "nodes st ''A'' = Some sa" "brightness sa = 5 / 12"
    and c: "connections st ''A->B'' = Some sc"
    and k: "containers st ''K'' = Some sk"
    unfolding useTimeline_def sample_flatten
    by (simp add: eval_defs sample_defs)
  show ?thesis
    using opacity_derivation [OF ev] ev a c k by blast
qed

section \<open>Floor dominance\<close>

text \<open>
  The claim C1 as it is written fails: in \<open>dimmed_timeline\<close> at 30 frames per second the
  dimBox event of node A runs over frames 0--24 and the reveal phase over frames 24--54.
  At frame 54 the reveal is complete and the global floor is 1, yet the brightness of A
  is 0: the hook subtracts the dimBox amount after it has applied the floor.
\<close>

theorem floor_dominance_counterexample:
  "useTimeline dimmed_timeline
     [\<lparr>node_id = ''A'', position_row = 0, position_col = 0, container = None,
       innerCol = None, alignToInnerCol = None, widthCols = None, heightRows = None,
       boxHeightFrac = None\<rparr>] [] [] 54 30
   = Inr (Some \<lparr>nodes = [''A'' \<mapsto> \<lparr>brightness = 0, drawProgress = 1, opacity = 0.3\<rparr>],
                 connections = Map.empty, containers = Map.empty, currentStep = None,
                 totalSteps = 0, indicatorOpacity = 0, globalOpacity = 1, globalFloor = 1\<rparr>)"
  unfolding useTimeline_def dimmed_flatten
  by (simp add: eval_defs dimmed_timeline_def)

text \<open>
  Claim C1 (floor dominance), amended. In a returned state whose global floor is 1, every
  connection and every container of the configuration has brightness 1 and draw progress
  1, and every node has draw progress 1. A node has brightness 1 when no dimBox event that
  targets it has started at the query frame, and brightness below 1 when one has.
\<close>

theorem floor_dominance_amended:
  assumes "useTimeline timeline ns cs ks frame fps = Inr (Some st)"
    and "globalFloor st = 1"
  shows "(\<forall>c\<in>set cs. \<exists>s. connections st (getConnectionId c) = Some s
            \<and> brightness s = 1 \<and> drawProgress s = 1)
       \<and> (\<forall>k\<in>set ks. \<exists>s. containers st (container_id k) = Some s
            \<and> brightness s = 1 \<and> drawProgress s = 1)
       \<and> (\<forall>n\<in>set ns. \<exists>s. nodes st (node_id n) = Some s \<and> drawProgress s = 1
            \<and> ((\<forall>e\<in>set (filter isAnimEvent (flattenTimeline timeline fps)).
                   action e = Act dimBox \<and> target e = Some (node_id n)
                   \<longrightarrow> frame \<le> startFrame e)
                 \<longrightarrow> brightness s = 1)
            \<and> ((\<exists>e\<in>set (filter isAnimEvent (flattenTimeline timeline fps)).
                   action e = Act dimBox \<and> target e = Some (node_id n)
                   \<and> startFrame e < frame)
                 \<longrightarrow> brightness s < 1))"
proof (intro conjI ballI)
  have fl: "unit_interval (globalFloor st)" by (rule globalFloor_unit [OF assms(1)])
  fix c assume "c \<in> set cs"
  then obtain s where s: "connections st (getConnectionId c) = Some s"
    using conn_entry(2) [OF assms(1)] by blast
  have "brightness s = 1 \<and> drawProgress s = 1"
    using connState_unit(3) [OF conn_entry(1) [OF assms(1) s] fl] assms(2) by simp
  then show "\<exists>s. connections st (getConnectionId c) = Some s
            \<and> brightness s = 1 \<and> drawProgress s = 1"
    using s by blast
next
  have fl: "unit_interval (globalFloor st)" by (rule globalFloor_unit [OF assms(1)])
  fix k assume "k \<in> set ks"
  then obtain s where s: "containers st (container_id k) = Some s"
    using container_entry(2) [OF assms(1)] by blast
  note cu = containerState_unit [OF container_entry(1) [OF assms(1) s] fl
      node_brightness_unit [OF assms(1)]]
  have "brightness s = 1 \<and> drawProgress s = 1"
    using cu(2) cu(4) assms(2) by simp
  then show "\<exists>s. containers st (container_id k) = Some s
            \<and> brightness s = 1 \<and> drawProgress s = 1"
    using s by blast
next
  have fl: "unit_interval (globalFloor st)" by (rule globalFloor_unit [OF assms(1)])
  fix n assume "n \<in> set ns"
  then obtain s where s: "nodes st (node_id n) = Some s"
    using node_entry(2) [OF assms(1)] by blast
  note e = node_entry(1) [OF assms(1) s]
  have d: "drawProgress s = 1"
    using nodeState_unit(3) [OF e fl] assms(2) by simp
  note b = nodeState_floor_one [OF e [unfolded assms(2)]]
  show "\<exists>s. nodes st (node_id n) = Some s \<and> drawProgress s = 1
            \<and> ((\<forall>e\<in>set (filter isAnimEvent (flattenTimeline timeline fps)).
                   action e = Act dimBox \<and> target e = Some (node_id n)
                   \<longrightarrow> frame \<le> startFrame e)
                 \<longrightarrow> brightness s = 1)
            \<and> ((\<exists>e\<in>set (filter isAnimEvent (flattenTimeline timeline fps)).
                   action e = Act dimBox \<and> target e = Some (node_id n)
                   \<and> startFrame e < frame)
                 \<longrightarrow> brightness s < 1)"
    using s d b by blast
qed

theorem floor_dominance_amended_witness:
  "\<exists>st sa sb sc sk.
     useTimeline sample_timeline sample_nodes sample_connections sample_containers 10 30
       = Inr (Some st)
     \<and> globalFloor st = 1
     \<and> nodes st ''A'' = Some sa \<and> brightness sa = 1 \<and> drawProgress sa = 1
     \<and> nodes st ''B'' = Some sb \<and> brightness sb = 1 \<and> drawProgress sb = 1
     \<and> connections st ''A->B'' = Some sc \<and> brightness sc = 1 \<and> drawProgress sc = 1
     \<and> containers st ''K'' = Some sk \<and> brightness sk = 1 \<and> drawProgress sk = 1"
proof -
  obtain st where
    ev: "useTimeline sample_timeline sample_nodes sample_connections sample_containers 10 30
           = Inr (Some st)"
    and fl: "globalFloor st = 1"
    unfolding useTimeline_def sample_flatten
    by (simp add: eval_defs sample_defs)
  note t = floor_dominance_amended [OF ev fl]
  have nodim: "\<forall>e\<in>set (filter isAnimEvent (flattenTimeline sample_timeline 30)).
                 action e = Act dimBox \<and> target e = Some i \<longrightarrow> 10 \<le> startFrame e" for i
    unfolding sample_flatten by (simp add: sample_events_def isAnimEvent_def)
  have ids: "getConnectionId (hd sample_connections) = ''A->B''"
    "container_id (hd sample_containers) = ''K''"
    "node_id (sample_nodes ! 0) = ''A''" "node_id (sample_nodes ! 1) = ''B''"
    by (simp_all add: sample_defs getConnectionId_def)
  have mem: "hd sample_connections \<in> set sample_connections"
    "hd sample_containers \<in> set sample_containers"
    "sample_nodes ! 0 \<in> set sample_nodes" "sample_nodes ! 1 \<in> set sample_nodes"
    by (simp_all add: sample_defs)
  from t mem(1) ids(1) obtain sc where
    sc: "connections st ''A->B'' = Some sc" "brightness sc = 1" "drawProgress sc = 1"
    by metis
  from t mem(2) ids(2) obtain sk where
    sk: "containers st ''K'' = Some sk" "brightness sk = 1" "drawProgress sk = 1"
    by metis
  from t mem(3) ids(3) nodim [of "''A''"] obtain sa where
    sa: "nodes st ''A'' = Some sa" "brightness sa = 1" "drawProgress sa = 1"
    by metis
  from t mem(4) ids(4) nodim [of "''B''"] obtain sb where
    sb: "nodes st ''B'' = Some sb" "brightness sb = 1" "drawProgress sb = 1"
    by metis
  show ?thesis using ev fl sa sb sc sk by blast
qed

section \<open>Connection settlement\<close>

lemma find_rev_anim:
  assumes "animEvents = filter isAnimEvent events" and "animEvents \<noteq> []"
  shows "find (\<lambda>e. action e \<noteq> hold) (rev animEvents) = Some (last animEvents)"
proof -
  obtain ys z where yz: "animEvents = ys @ [z]"
    using assms(2) by (cases animEvents rule: rev_cases) auto
  have "z \<in> set (filter isAnimEvent events)" using yz assms(1) by (metis in_set_conv_decomp)
  then have "action z \<noteq> hold" by (simp add: isAnimEvent_def)
  then show ?thesis by (simp add: yz)
qed

text \<open>
  Claim C5 (connection settlement). Let \<open>flowEnd\<close> be the end of the last animation event
  plus \<open>Math_round (2 * fps)\<close> frames. At every frame at or after \<open>flowEnd\<close>, every
  connection of the configuration has brightness 1 and draw progress 1 in the returned
  state, whether or not a drawLine event targets it.
\<close>

theorem connection_settlement:
  assumes "useTimeline timeline ns cs ks frame fps = Inr (Some st)"
    and "animEvents = filter isAnimEvent (flattenTimeline timeline fps)"
    and "animEvents \<noteq> []"
    and "flowEnd = startFrame (last animEvents) + durationFrames (last animEvents)
                     + Math_round (2 * fps)"
    and "flowEnd \<le> frame"
    and "c \<in> set cs"
  shows "\<exists>s. connections st (getConnectionId c) = Some s
             \<and> brightness s = 1 \<and> drawProgress s = 1"
proof -
  have fe: "flowEndOf (flattenTimeline timeline fps) animEvents fps = flowEnd"
    using find_rev_anim [OF assms(2,3)] assms(4) by (simp add: flowEndOf_def)
  obtain s where s: "connections st (getConnectionId c) = Some s"
    using conn_entry(2) [OF assms(1) assms(6)] by blast
  note e = conn_entry(1) [OF assms(1) s, folded assms(2), unfolded fe]
  have "brightness s = 1 \<and> drawProgress s = 1"
    using connState_unit(4) [OF e globalFloor_unit [OF assms(1)]] assms(5) by simp
  then show ?thesis using s by blast
qed


lemma bare_flatten:
  "flattenTimeline bare_timeline 30 =
     [\<lparr>action = Act fillBox, source = FromStep, target = Some ''A'', startFrame = 0,
       durationFrames = 24, step = None, group = None\<rparr>]"
  by (simp add: bare_timeline_def flatten_defs)

theorem connection_settlement_witness:
  "\<exists>st s.
     useTimeline bare_timeline sample_nodes sample_connections sample_containers 84 30
       = Inr (Some st)
     \<and> filter isAnimEvent (flattenTimeline bare_timeline 30) \<noteq> []
     \<and> startFrame (last (filter isAnimEvent (flattenTimeline bare_timeline 30)))
         + durationFrames (last (filter isAnimEvent (flattenTimeline bare_timeline 30)))
         + Math_round (2 * 30) = 84
     \<and> globalFloor st = 0
     \<and> connections st ''A->B'' = Some s \<and> brightness s = 1 \<and> drawProgress s = 1"
proof -
  obtain st where
    ev: "useTimeline bare_timeline sample_nodes sample_connections sample_containers 84 30
           = Inr (Some st)"
    and fl: "globalFloor st = 0"
    unfolding useTimeline_def bare_flatten
    by (simp add: eval_defs sample_defs bare_timeline_def)
  have ne: "filter isAnimEvent (flattenTimeline bare_timeline 30) \<noteq> []"
    unfolding bare_flatten by (simp add: isAnimEvent_def)
  have fe: "startFrame (last (filter isAnimEvent (flattenTimeline bare_timeline 30)))
         + durationFrames (last (filter isAnimEvent (flattenTimeline bare_timeline 30)))
         + Math_round (2 * 30) = 84"
    unfolding bare_flatten by (simp add: isAnimEvent_def Math_round_def)
  have mem: "hd sample_connections \<in> set sample_connections"
    and cid: "getConnectionId (hd sample_connections) = ''A->B''"
    by (simp_all add: sample_defs getConnectionId_def)
  from connection_settlement [OF ev refl ne fe [symmetric] order_refl mem] cid
  obtain s where "connections st ''A->B'' = Some s" "brightness s = 1" "drawProgress s = 1"
    by auto
  then show ?thesis using ev ne fe fl by blast
qed

section \<open>Fade-out triggers\<close>


lemma truthyGroup_nonempty: "truthyGroup x = Some g \<Longrightarrow> g \<noteq> []"
  by (cases x) (auto split: if_splits)





lemma grouped_flatten:
  "filter isAnimEvent (flattenTimeline grouped_timeline 30) = grouped_events"
  by (simp add: grouped_timeline_def grouped_events_def fillEvent_def flatten_defs
      isAnimEvent_def)















section \<open>The dim bookend\<close>





section \<open>Edge inference\<close>

lemma autoRoute_ends:
  "hd (autoRoute a e b f) = a \<and> last (autoRoute a e b f) = b"
  by (simp add: autoRoute_def Let_def)

lemma resolveConnection_D:
  assumes "resolveConnection cellW cellH gTop rns rcs cdef = Inr r"
  obtains fc tc fromPoint toPoint where
    "getTargetCenter cellW cellH gTop rns rcs (cfrom cdef) = Inr fc"
    "getTargetCenter cellW cellH gTop rns rcs (cto cdef) = Inr tc"
    "anchorPoint rns rcs (cfrom cdef) (usedFromEdge cdef fc tc) fc = Inr fromPoint"
    "anchorPoint rns rcs (cto cdef) (usedToEdge cdef fc tc) tc = Inr toPoint"
    "points r = (case waypoints cdef of
                   Some ws \<Rightarrow> [fromPoint] @ ws @ [toPoint]
                 | None \<Rightarrow> autoRoute fromPoint (usedFromEdge cdef fc tc) toPoint
                            (usedToEdge cdef fc tc))"
    "conn_def r = cdef" "rconn_id r = getConnectionId cdef"
  using assms unfolding resolveConnection_def Let_def
  by (auto simp: bindE_Inr_iff)

text \<open>
  The claim C7 as it is written fails for a container endpoint: for a connection from a
  node to the right side of a container, with no explicit edges, the edge used at the
  container is the side named by the reference, here the right one, although the node lies
  to the left of the anchor and the inference from the two centers gives the left edge.
\<close>

theorem edge_inference_counterexample:
  "usedToEdge \<lparr>conn_id = None, cfrom = NodeRef ''A'', cto = ContainerRef ''K'' SideRight,
                fromEdge = None, toEdge = None, waypoints = None\<rparr>
     \<lparr>px = 100, py = 200\<rparr> \<lparr>px = 500, py = 200\<rparr> = EdgeRight
   \<and> inferEdge \<lparr>px = 500, py = 200\<rparr> \<lparr>px = 100, py = 200\<rparr> = EdgeLeft"
  by (simp add: usedToEdge_def sideToEdge_def inferEdge_def)

text \<open>
  Claim C7 (edge inference), amended. For an endpoint that is a node and has no explicit
  edge, the edge used is inferred from the two resolved endpoint centers: with the delta
  taken from this endpoint towards the other, it is right or left (by the sign of the
  horizontal delta) when the horizontal delta is larger in absolute value than the
  vertical one, and bottom or top (by the sign of the vertical delta) otherwise. For an
  endpoint that is a container reference and has no explicit edge, the edge used is the
  side the reference names. The anchors of a resolved connection, its first and its last
  point, are those of the two endpoints for the edges so chosen.
\<close>

theorem edge_inference_amended:
  "(fromEdge cdef = None \<and> cfrom cdef = NodeRef n \<longrightarrow>
      usedFromEdge cdef fc tc =
        (if \<bar>px tc - px fc\<bar> > \<bar>py tc - py fc\<bar>
         then (if px tc - px fc > 0 then EdgeRight else EdgeLeft)
         else (if py tc - py fc > 0 then EdgeBottom else EdgeTop)))
   \<and> (toEdge cdef = None \<and> cto cdef = NodeRef m \<longrightarrow>
      usedToEdge cdef fc tc =
        (if \<bar>px fc - px tc\<bar> > \<bar>py fc - py tc\<bar>
         then (if px fc - px tc > 0 then EdgeRight else EdgeLeft)
         else (if py fc - py tc > 0 then EdgeBottom else EdgeTop)))
   \<and> (fromEdge cdef = None \<and> cfrom cdef = ContainerRef k s \<longrightarrow>
      usedFromEdge cdef fc tc = (case s of SideLeft \<Rightarrow> EdgeLeft | SideRight \<Rightarrow> EdgeRight))
   \<and> (toEdge cdef = None \<and> cto cdef = ContainerRef k s \<longrightarrow>
      usedToEdge cdef fc tc = (case s of SideLeft \<Rightarrow> EdgeLeft | SideRight \<Rightarrow> EdgeRight))
   \<and> (resolveConnection cellW cellH gTop rns rcs cdef = Inr r \<longrightarrow>
      (\<exists>c1 c2.
         getTargetCenter cellW cellH gTop rns rcs (cfrom cdef) = Inr c1
         \<and> getTargetCenter cellW cellH gTop rns rcs (cto cdef) = Inr c2
         \<and> anchorPoint rns rcs (cfrom cdef) (usedFromEdge cdef c1 c2) c1 = Inr (hd (points r))
         \<and> anchorPoint rns rcs (cto cdef) (usedToEdge cdef c1 c2) c2
             = Inr (last (points r))))"
proof -
  have a: "fromEdge cdef = None \<and> cfrom cdef = NodeRef n \<longrightarrow>
      usedFromEdge cdef fc tc =
        (if \<bar>px tc - px fc\<bar> > \<bar>py tc - py fc\<bar>
         then (if px tc - px fc > 0 then EdgeRight else EdgeLeft)
         else (if py tc - py fc > 0 then EdgeBottom else EdgeTop))"
    by (simp add: usedFromEdge_def inferEdge_def Let_def)
  have b: "toEdge cdef = None \<and> cto cdef = NodeRef m \<longrightarrow>
      usedToEdge cdef fc tc =
        (if \<bar>px fc - px tc\<bar> > \<bar>py fc - py tc\<bar>
         then (if px fc - px tc > 0 then EdgeRight else EdgeLeft)
         else (if py fc - py tc > 0 then EdgeBottom else EdgeTop))"
    by (simp add: usedToEdge_def inferEdge_def Let_def)
  have c: "fromEdge cdef = None \<and> cfrom cdef = ContainerRef k s \<longrightarrow>
      usedFromEdge cdef fc tc = (case s of SideLeft \<Rightarrow> EdgeLeft | SideRight \<Rightarrow> EdgeRight)"
    by (cases s) (simp_all add: usedFromEdge_def sideToEdge_def)
  have d: "toEdge cdef = None \<and> cto cdef = ContainerRef k s \<longrightarrow>
      usedToEdge cdef fc tc = (case s of SideLeft \<Rightarrow> EdgeLeft | SideRight \<Rightarrow> EdgeRight)"
    by (cases s) (simp_all add: usedToEdge_def sideToEdge_def)
  have e: "\<exists>c1 c2.
         getTargetCenter cellW cellH gTop rns rcs (cfrom cdef) = Inr c1
         \<and> getTargetCenter cellW cellH gTop rns rcs (cto cdef) = Inr c2
         \<and> anchorPoint rns rcs (cfrom cdef) (usedFromEdge cdef c1 c2) c1 = Inr (hd (points r))
         \<and> anchorPoint rns rcs (cto cdef) (usedToEdge cdef c1 c2) c2
             = Inr (last (points r))"
    if "resolveConnection cellW cellH gTop rns rcs cdef = Inr r"
  proof -
    from that obtain c1 c2 fromPoint toPoint where
      g: "getTargetCenter cellW cellH gTop rns rcs (cfrom cdef) = Inr c1"
         "getTargetCenter cellW cellH gTop rns rcs (cto cdef) = Inr c2"
      and p: "anchorPoint rns rcs (cfrom cdef) (usedFromEdge cdef c1 c2) c1 = Inr fromPoint"
         "anchorPoint rns rcs (cto cdef) (usedToEdge cdef c1 c2) c2 = Inr toPoint"
      and pts: "points r = (case waypoints cdef of
                   Some ws \<Rightarrow> [fromPoint] @ ws @ [toPoint]
                 | None \<Rightarrow> autoRoute fromPoint (usedFromEdge cdef c1 c2) toPoint
                            (usedToEdge cdef c1 c2))"
      by (rule resolveConnection_D)
    have "hd (points r) = fromPoint \<and> last (points r) = toPoint"
      unfolding pts by (cases "waypoints cdef") (simp_all add: autoRoute_ends)
    then show ?thesis using g p by auto
  qed
  show ?thesis using a b c d e by blast
qed

lemmas layout_eval = resolveContainers_def resolveContainer_def
  resolveNodes_def resolveNode_def innerPlacement_def innerCellCenter_def outerCellCenter_def
  orElse_def bindE_def
  DEFAULT_CONTAINER_INSET_FRAC_def CONTAINER_LABEL_H_def
  OUTER_BOX_W_FRAC_def OUTER_BOX_H_FRAC_def INNER_BOX_W_FRAC_def INNER_BOX_H_FRAC_def
  sample_nodes_def sample_containers_def Let_def

text \<open>
  The cell width 608, the cell height 21156 / 25 and the grid top 1476 / 25 used below
  are those of the sample grid on the default canvas with a page spacing of 48.
\<close>

theorem edge_inference_amended_witness:
  "fromEdge (hd sample_connections) = None \<and> cfrom (hd sample_connections) = NodeRef ''A''
   \<and> toEdge (hd sample_connections) = None \<and> cto (hd sample_connections) = NodeRef ''B''
   \<and> usedFromEdge (hd sample_connections) \<lparr>px = 100, py = 200\<rparr> \<lparr>px = 150, py = 100\<rparr>
       = EdgeTop
   \<and> usedToEdge (hd sample_connections) \<lparr>px = 100, py = 200\<rparr> \<lparr>px = 150, py = 100\<rparr>
       = EdgeBottom
   \<and> (\<exists>rns r.
          resolveNodes 608 (21156 / 25) (1476 / 25)
            (resolveContainers 608 (21156 / 25) (1476 / 25) 16 sample_containers) sample_nodes
            = Inr rns
          \<and> resolveConnection 608 (21156 / 25) (1476 / 25) rns
               (resolveContainers 608 (21156 / 25) (1476 / 25) 16 sample_containers)
               (hd sample_connections) = Inr r
          \<and> getTargetCenter 608 (21156 / 25) (1476 / 25) rns
               (resolveContainers 608 (21156 / 25) (1476 / 25) 16 sample_containers)
               (NodeRef ''A'') = Inr \<lparr>px = 304, py = 12054 / 25\<rparr>
          \<and> getTargetCenter 608 (21156 / 25) (1476 / 25) rns
               (resolveContainers 608 (21156 / 25) (1476 / 25) 16 sample_containers)
               (NodeRef ''B'') = Inr \<lparr>px = 23456 / 25, py = 12354 / 25\<rparr>
          \<and> usedFromEdge (hd sample_connections) \<lparr>px = 304, py = 12054 / 25\<rparr>
               \<lparr>px = 23456 / 25, py = 12354 / 25\<rparr> = EdgeRight
          \<and> usedToEdge (hd sample_connections) \<lparr>px = 304, py = 12054 / 25\<rparr>
               \<lparr>px = 23456 / 25, py = 12354 / 25\<rparr> = EdgeLeft
          \<and> nodeEdge rns ''A'' EdgeRight = Inr (hd (points r))
          \<and> nodeEdge rns ''B'' EdgeLeft = Inr (last (points r)))"
proof -
  let ?c = "hd sample_connections"
  let ?a = "\<lparr>px = 304, py = 12054 / 25\<rparr>" and ?b = "\<lparr>px = 23456 / 25, py = 12354 / 25\<rparr>"
  let ?rcs = "resolveContainers 608 (21156 / 25) (1476 / 25) 16 sample_containers"
  have h: "fromEdge ?c = None" "cfrom ?c = NodeRef ''A''"
    "toEdge ?c = None" "cto ?c = NodeRef ''B''"
    by (simp_all add: sample_connections_def)
  have w: "waypoints ?c = None" by (simp add: sample_connections_def)
  note t2 = edge_inference_amended [of ?c "''A''"
      "\<lparr>px = 100, py = 200\<rparr>" "\<lparr>px = 150, py = 100\<rparr>" "''B''"]
  have e2: "usedFromEdge ?c \<lparr>px = 100, py = 200\<rparr> \<lparr>px = 150, py = 100\<rparr> = EdgeTop"
    "usedToEdge ?c \<lparr>px = 100, py = 200\<rparr> \<lparr>px = 150, py = 100\<rparr> = EdgeBottom"
    using h t2 by simp_all
  obtain rns ra rb where
    rn: "resolveNodes 608 (21156 / 25) (1476 / 25) ?rcs sample_nodes = Inr rns"
    and ra: "rns ''A'' = Some ra" "center ra = ?a"
    and rb: "rns ''B'' = Some rb" "center rb = ?b"
    by (simp add: layout_eval)
  have ca: "getTargetCenter 608 (21156 / 25) (1476 / 25) rns ?rcs (NodeRef ''A'') = Inr ?a"
    and cb: "getTargetCenter 608 (21156 / 25) (1476 / 25) rns ?rcs (NodeRef ''B'') = Inr ?b"
    using ra rb by (simp_all add: getTargetCenter_def)
  obtain r where rc: "resolveConnection 608 (21156 / 25) (1476 / 25) rns ?rcs ?c = Inr r"
    using ra rb h w
    by (simp add: resolveConnection_def getTargetCenter_def anchorPoint_def nodeEdge_def
        Let_def)
  note t = edge_inference_amended [of ?c "''A''" ?a ?b "''B''" _ _
      608 "21156 / 25" "1476 / 25" rns ?rcs r]
  have ef: "usedFromEdge ?c ?a ?b = EdgeRight" and et: "usedToEdge ?c ?a ?b = EdgeLeft"
    using t h by simp_all
  from t rc obtain c1 c2 where
    g: "getTargetCenter 608 (21156 / 25) (1476 / 25) rns ?rcs (cfrom ?c) = Inr c1"
       "getTargetCenter 608 (21156 / 25) (1476 / 25) rns ?rcs (cto ?c) = Inr c2"
    and an: "anchorPoint rns ?rcs (cfrom ?c) (usedFromEdge ?c c1 c2) c1 = Inr (hd (points r))"
       "anchorPoint rns ?rcs (cto ?c) (usedToEdge ?c c1 c2) c2 = Inr (last (points r))"
    by blast
  have "c1 = ?a" "c2 = ?b" using g ca cb h by simp_all
  then have "nodeEdge rns ''A'' EdgeRight = Inr (hd (points r))"
    "nodeEdge rns ''B'' EdgeLeft = Inr (last (points r))"
    using an h ef et by (simp_all add: anchorPoint_def)
  then show ?thesis using h e2 rn rc ca cb ef et by blast
qed

section \<open>Reference errors of the layout\<close>

























section \<open>Flattening\<close>

lemma fold_max_Max:
  fixes m :: real
  shows "fold max xs m = Max (insert m (set xs))"
proof (induction xs arbitrary: m)
  case Nil
  then show ?case by simp
next
  case (Cons x xs)
  have "Max (insert (max x m) (set xs)) = Max (insert m (insert x (set xs)))"
    by (cases "set xs = {}") (simp_all add: max.commute max.left_commute)
  then show ?case using Cons.IH [of "max x m"] by simp
qed

lemma fold_max_ge:
  fixes m :: real
  shows "m \<le> fold max xs m" and "x \<in> set xs \<Longrightarrow> x \<le> fold max xs m"
  by (simp_all add: fold_max_Max)

lemma flatten_refines:
  "flattenStep fps s pg (evs, c) = (evs @ flatEventsOf fps pg c s, c + stepDuration fps s)"
  "flattenChildren fps ss grp ps (evs, cur, m) =
     (evs @ concat (map (flatEventsOf fps grp ps) ss),
      (if ss = [] then cur else ps + stepDuration fps (last ss)),
      fold max (map (stepDuration fps) ss) m)"
proof (induction fps s pg "(evs, c)" and fps ss grp ps "(evs, cur, m)"
    arbitrary: evs c and evs cur m rule: flattenStep_flattenChildren.induct)
  case (1 fps duration parentGroup events cursor)
  then show ?case by (simp add: Let_def)
next
  case (2 fps steps g parentGroup events cursor)
  then show ?case by (simp add: Let_def)
next
  case (3 fps a tgt d lbl g parentGroup events cursor)
  then show ?case by (simp add: Let_def)
next
  case (4 fps grp parallelStart acc)
  then show ?case by simp
next
  case (5 fps child rest grp parallelStart events cursor maxDuration)
  then show ?case by (simp add: max.commute)
qed


lemma flatEventsOf_start:
  "e \<in> set (flatEventsOf fps pg c s) \<Longrightarrow> startFrame e = c"
  by (induction fps pg c s rule: flatEventsOf.induct) auto

lemma eventsWithin_append:
  "eventsWithin lo hi (xs @ ys) \<longleftrightarrow> eventsWithin lo hi xs \<and> eventsWithin lo hi ys"
  by (simp add: eventsWithin_def)

lemma eventsWithin_mono:
  "eventsWithin lo hi xs \<Longrightarrow> lo' \<le> lo \<Longrightarrow> hi \<le> hi' \<Longrightarrow> eventsWithin lo' hi' xs"
  by (auto simp: eventsWithin_def list_all_iff)

lemma eventsWithin_concat:
  "eventsWithin lo hi (concat xss) \<longleftrightarrow> (\<forall>xs\<in>set xss. eventsWithin lo hi xs)"
  by (auto simp: eventsWithin_def list_all_iff)

lemma nonneg_within:
  "nonnegStep fps s \<Longrightarrow>
     0 \<le> stepDuration fps s \<and> eventsWithin c (c + stepDuration fps s) (flatEventsOf fps pg c s)"
proof (induction fps pg c s rule: flatEventsOf.induct)
  case (1 fps pg c d)
  then show ?case by (simp add: eventsWithin_def)
next
  case (2 fps pg c a tgt d lbl g)
  then show ?case by (simp add: eventsWithin_def)
next
  case (3 fps pg c steps g)
  have nn: "nonnegStep fps ch" if "ch \<in> set steps" for ch
    using "3.prems" that by (simp add: list_all_iff)
  have le: "stepDuration fps ch \<le> stepDuration fps (Parallel steps g)"
    if "ch \<in> set steps" for ch
    using that fold_max_ge(2) [of "stepDuration fps ch" "map (stepDuration fps) steps" 0]
    by simp
  have "eventsWithin c (c + stepDuration fps (Parallel steps g))
          (flatEventsOf fps (nullish g pg) c ch)" if "ch \<in> set steps" for ch
    using "3.IH" [OF that nn [OF that]] le [OF that]
    by (auto intro: eventsWithin_mono)
  moreover have "0 \<le> stepDuration fps (Parallel steps g)"
    using fold_max_ge(1) [of 0 "map (stepDuration fps) steps"] by simp
  ultimately show ?case by (simp add: eventsWithin_concat)
qed

lemma sequence_within:
  assumes "list_all (nonnegStep fps) steps"
  shows "\<exists>new c'. fold (\<lambda>s acc. flattenStep fps s pg acc) steps (evs, c) = (evs @ new, c')
           \<and> c \<le> c' \<and> eventsWithin c c' new"
  using assms
proof (induction steps arbitrary: evs c)
  case Nil
  then show ?case by (simp add: eventsWithin_def)
next
  case (Cons s steps)
  let ?mid = "c + stepDuration fps s"
  have s: "0 \<le> stepDuration fps s" "eventsWithin c ?mid (flatEventsOf fps pg c s)"
    using nonneg_within [of fps s c pg] Cons.prems by simp_all
  from Cons.IH [of "evs @ flatEventsOf fps pg c s" ?mid] Cons.prems
  obtain new c' where r:
    "fold (\<lambda>s acc. flattenStep fps s pg acc) steps (evs @ flatEventsOf fps pg c s, ?mid)
       = ((evs @ flatEventsOf fps pg c s) @ new, c')"
    "?mid \<le> c'" "eventsWithin ?mid c' new"
    by auto
  have "eventsWithin c c' (flatEventsOf fps pg c s @ new)"
    using s r(2,3) by (auto simp: eventsWithin_append intro: eventsWithin_mono)
  moreover have "c \<le> c'" using s(1) r(2) by simp
  ultimately show ?case
    using r(1) by (simp add: flatten_refines(1))
qed

lemma phase_within:
  assumes "nonnegPhase fps p"
  shows "\<exists>new c'. flattenPhase fps p (evs, c) = (evs @ new, c')
           \<and> c \<le> c' \<and> eventsWithin c c' new"
proof (cases p)
  case (SequencePhase steps)
  then show ?thesis using assms sequence_within [of fps steps None evs c] by simp
qed (use assms in \<open>simp_all add: Let_def phaseEvent_def eventsWithin_def\<close>)


lemma flatten_alone:
  "fst (flattenStep fps s pg ([], c)) = flatEventsOf fps pg c s"
  "snd (flattenStep fps s pg ([], c)) - c = stepDuration fps s"
  by (simp_all add: flatten_refines(1))

text \<open>
  The claim C6 as it is written fails in three places. The event of a hold child of a
  parallel step carries no group, also when the parallel step has one. A parallel step
  whose only child has a negative duration leaves the cursor where it was, since the
  longest child is counted from 0. And a step with a negative duration moves the cursor
  back.
\<close>

theorem parallel_flattening_counterexample:
  "flattenStep 30 (Parallel [HoldStep 1] (Some ''g'')) None ([], 0)
     = ([\<lparr>action = hold, source = FromStep, target = None, startFrame = 0,
          durationFrames = 30, step = None, group = None\<rparr>], 30)
   \<and> flattenStep 30 (Parallel [HoldStep (- 1)] None) None ([], 60)
     = ([\<lparr>action = hold, source = FromStep, target = None, startFrame = 60,
          durationFrames = - 30, step = None, group = None\<rparr>], 60)
   \<and> flattenStep 30 (HoldStep (- 1)) None ([], 60)
     = ([\<lparr>action = hold, source = FromStep, target = None, startFrame = 60,
          durationFrames = - 30, step = None, group = None\<rparr>], 30)"
  by (simp add: Math_round_def nullish_def)

text \<open>
  Claim C6 (parallel flattening), amended. Flattening a parallel step at the cursor \<open>c\<close>
  appends the events of its children, each child flattened from the same cursor \<open>c\<close>
  under the group of the parallel step (its own or, without one, the inherited one), so
  every one of these events starts at \<open>c\<close>; afterwards the cursor is \<open>c\<close> plus the
  largest of 0 and the children's flattened durations. The event of a targeted child
  carries the child's own group when it has one and the group passed down otherwise; the
  event of a hold child carries none. When no duration is negative, a step and a phase
  never move the cursor back, and all their events lie between the cursor before and the
  cursor after, so the events of consecutive steps and phases do not overlap.
\<close>

theorem parallel_flattening_amended:
  "flattenStep fps (Parallel steps g) pg (events, c)
     = (events @ concat (map (\<lambda>ch. fst (flattenStep fps ch (nullish g pg) ([], c))) steps),
        c + Max (insert 0
                  ((\<lambda>ch. snd (flattenStep fps ch (nullish g pg) ([], c)) - c) ` set steps)))
   \<and> (\<forall>e\<in>set (concat (map (\<lambda>ch. fst (flattenStep fps ch (nullish g pg) ([], c))) steps)).
         startFrame e = c)
   \<and> map group (fst (flattenStep fps (Leaf a t d l cg) grp ([], c)))
       = [case cg of Some v \<Rightarrow> Some v | None \<Rightarrow> grp]
   \<and> map group (fst (flattenStep fps (HoldStep h) grp ([], c))) = [None]
   \<and> (nonnegStep fps s \<longrightarrow>
        (\<exists>new c'. flattenStep fps s pg (events, c) = (events @ new, c')
           \<and> c \<le> c' \<and> eventsWithin c c' new))
   \<and> (nonnegPhase fps p \<longrightarrow>
        (\<exists>new c'. flattenPhase fps p (events, c) = (events @ new, c')
           \<and> c \<le> c' \<and> eventsWithin c c' new))"
proof -
  have img: "(\<lambda>ch. snd (flattenStep fps ch (nullish g pg) ([], c)) - c) ` set steps
               = set (map (stepDuration fps) steps)"
    by (simp add: flatten_alone(2))
  have a: "flattenStep fps (Parallel steps g) pg (events, c)
     = (events @ concat (map (\<lambda>ch. fst (flattenStep fps ch (nullish g pg) ([], c))) steps),
        c + Max (insert 0
                  ((\<lambda>ch. snd (flattenStep fps ch (nullish g pg) ([], c)) - c) ` set steps)))"
    unfolding img flatten_alone(1) flatten_refines(1)
    by (simp add: fold_max_Max)
  have b: "\<forall>e\<in>set (concat (map (\<lambda>ch. fst (flattenStep fps ch (nullish g pg) ([], c))) steps)).
         startFrame e = c"
    unfolding flatten_alone(1) by (auto dest: flatEventsOf_start)
  have cc: "map group (fst (flattenStep fps (Leaf a t d l cg) grp ([], c)))
       = [case cg of Some v \<Rightarrow> Some v | None \<Rightarrow> grp]"
    by (simp add: Let_def nullish_def)
  have dd: "map group (fst (flattenStep fps (HoldStep h) grp ([], c))) = [None]"
    by (simp add: Let_def)
  have ee: "\<exists>new c'. flattenStep fps s pg (events, c) = (events @ new, c')
           \<and> c \<le> c' \<and> eventsWithin c c' new" if "nonnegStep fps s"
    using nonneg_within [OF that, of c pg] by (simp add: flatten_refines(1))
  have ff: "\<exists>new c'. flattenPhase fps p (events, c) = (events @ new, c')
           \<and> c \<le> c' \<and> eventsWithin c c' new" if "nonnegPhase fps p"
    by (rule phase_within [OF that])
  show ?thesis using a b cc dd ee ff by blast
qed

theorem parallel_flattening_amended_witness:
  "flattenStep 30 sample_parallel None ([], 60)
     = ([\<lparr>action = hold, source = FromStep, target = None, startFrame = 60,
          durationFrames = 30, step = None, group = None\<rparr>,
         \<lparr>action = Act fillBox, source = FromStep, target = Some ''A'', startFrame = 60,
          durationFrames = 24, step = None, group = Some ''g''\<rparr>,
         \<lparr>action = Act drawLine, source = FromStep, target = Some ''A->B'', startFrame = 60,
          durationFrames = 12, step = None, group = Some ''own''\<rparr>], 90)
   \<and> nonnegStep 30 sample_parallel
   \<and> nonnegPhase 30 (SequencePhase [sample_parallel, HoldStep 1])
   \<and> (\<exists>new c'. flattenPhase 30 (SequencePhase [sample_parallel, HoldStep 1]) ([], 60)
                  = (new, c')
         \<and> 60 \<le> c' \<and> eventsWithin 60 c' new \<and> c' = 120)"
proof -
  have nn: "nonnegStep 30 sample_parallel"
    "nonnegPhase 30 (SequencePhase [sample_parallel, HoldStep 1])"
    by (simp_all add: sample_parallel_def Math_round_def DEFAULT_FILL_DURATION_def
        DEFAULT_DRAW_DURATION_def)
  note t = parallel_flattening_amended [of 30
      "[HoldStep 1, Leaf fillBox ''A'' None None None,
        Leaf drawLine ''A->B'' None None (Some ''own'')]" "Some ''g''" None "[]" 60
      drawLine "''A->B''" None None "Some ''own''" "Some ''g''" 1 sample_parallel
      "SequencePhase [sample_parallel, HoldStep 1]"]
  have a: "flattenStep 30 sample_parallel None ([], 60)
     = ([\<lparr>action = hold, source = FromStep, target = None, startFrame = 60,
          durationFrames = 30, step = None, group = None\<rparr>,
         \<lparr>action = Act fillBox, source = FromStep, target = Some ''A'', startFrame = 60,
          durationFrames = 24, step = None, group = Some ''g''\<rparr>,
         \<lparr>action = Act drawLine, source = FromStep, target = Some ''A->B'', startFrame = 60,
          durationFrames = 12, step = None, group = Some ''own''\<rparr>], 90)"
    unfolding sample_parallel_def t [THEN conjunct1]
    by (simp add: Math_round_def nullish_def DEFAULT_FILL_DURATION_def
        DEFAULT_DRAW_DURATION_def)
  from t nn(2) obtain new c' where
    p: "flattenPhase 30 (SequencePhase [sample_parallel, HoldStep 1]) ([], 60) = (new, c')"
      "60 \<le> c'" "eventsWithin 60 c' new"
    by auto
  have "c' = 120"
    using p(1) a by (simp add: Math_round_def)
  then show ?thesis using a nn p by blast
qed

section \<open>The hook returns\<close>

lemma foldE_total:
  assumes "\<And>x s. x \<in> set xs \<Longrightarrow> \<exists>s'. f x s = Inr s'"
  shows "\<exists>s'. foldE f xs s = Inr s'"
  using assms
proof (induction xs arbitrary: s)
  case Nil
  then show ?case by simp
next
  case (Cons x xs)
  obtain m where m: "f x s = Inr m" using Cons.prems [of x s] by auto
  have "\<exists>s'. foldE f xs m = Inr s'"
    by (rule Cons.IH) (use Cons.prems in auto)
  then show ?case using m by simp
qed

lemma buildStates_total:
  assumes "\<And>i. i \<in> set ids \<Longrightarrow> \<exists>s. stateOf i = Inr s"
  shows "\<exists>m. buildStates stateOf ids = Inr m"
  unfolding buildStates_def
proof (rule foldE_total)
  fix i :: string and states :: "string \<rightharpoonup> ElementAnimState"
  assume "i \<in> set ids"
  then obtain s where "stateOf i = Inr s" using assms by blast
  then show "\<exists>s'. bindE (stateOf i) (\<lambda>s. Inr (states(i \<mapsto> s))) = Inr s'" by simp
qed

lemma eventDrawProgress_total:
  "0 < durationFrames evt \<Longrightarrow> \<exists>v. eventDrawProgress frame evt = Inr v"
  by (simp add: eventDrawProgress_def interpolate_ramp)

lemma eventEnvelope_total:
  assumes "0 < durationFrames evt" and "0 < Math_round (FADE_OUT_S * fps)"
  shows "\<exists>v. eventEnvelope frame fps animEvents tbl evt i = Inr v"
proof (cases "fadeOutStartOf animEvents tbl evt i")
  case None
  then show ?thesis using assms(1) by (simp add: eventEnvelope_def interpolate_ramp Let_def)
next
  case (Some f)
  then show ?thesis
    using assms by (simp add: eventEnvelope_def interpolate_envelope Let_def)
qed

lemma nodeStep_total:
  assumes "rangesValid fps animEvents" and "i < length animEvents"
  shows "\<exists>r. nodeStep frame fps animEvents tbl nid i acc = Inr r"
proof -
  have d: "0 < durationFrames (animEvents ! i)"
    using assms by (simp add: rangesValid_def list_all_length)
  have f: "0 < Math_round (FADE_OUT_S * fps)" using assms(1) by (simp add: rangesValid_def)
  obtain env where env: "eventEnvelope frame fps animEvents tbl (animEvents ! i) i = Inr env"
    using eventEnvelope_total [OF d f, of frame animEvents tbl i] by blast
  obtain dp where dp: "eventDrawProgress frame (animEvents ! i) = Inr dp"
    using eventDrawProgress_total [OF d, of frame] by blast
  show ?thesis
    by (cases acc) (simp add: nodeStep_def env dp Let_def)
qed

lemma nodeState_total:
  assumes "rangesValid fps animEvents"
  shows "\<exists>s. nodeState frame fps animEvents tbl flr nid = Inr s"
proof -
  have "\<exists>r. foldE (nodeStep frame fps animEvents tbl nid) [0..<length animEvents]
      (0, 0, 0) = Inr r"
    by (rule foldE_total) (use nodeStep_total [OF assms] in simp)
  then obtain r where "foldE (nodeStep frame fps animEvents tbl nid) [0..<length animEvents]
      (0, 0, 0) = Inr r" ..
  then show ?thesis by (cases r) (simp add: nodeState_def Let_def)
qed

lemma connStep_total:
  assumes "rangesValid fps animEvents" and "i < length animEvents"
  shows "\<exists>r. connStep frame fps animEvents tbl cid i acc = Inr r"
proof -
  have d: "0 < durationFrames (animEvents ! i)"
    using assms by (simp add: rangesValid_def list_all_length)
  have f: "0 < Math_round (FADE_OUT_S * fps)" using assms(1) by (simp add: rangesValid_def)
  obtain env where env: "eventEnvelope frame fps animEvents tbl (animEvents ! i) i = Inr env"
    using eventEnvelope_total [OF d f, of frame animEvents tbl i] by blast
  obtain dp where dp: "eventDrawProgress frame (animEvents ! i) = Inr dp"
    using eventDrawProgress_total [OF d, of frame] by blast
  show ?thesis
    by (cases acc) (simp add: connStep_def env dp Let_def)
qed

lemma connState_total:
  assumes "rangesValid fps animEvents"
  shows "\<exists>s. connState frame fps animEvents tbl flr flowEnd cid = Inr s"
proof -
  have "\<exists>r. foldE (connStep frame fps animEvents tbl cid) [0..<length animEvents]
      (0, 0) = Inr r"
    by (rule foldE_total) (use connStep_total [OF assms] in simp)
  then obtain r where "foldE (connStep frame fps animEvents tbl cid) [0..<length animEvents]
      (0, 0) = Inr r" ..
  moreover have "0 < Math_round (DEFAULT_DRAW_DURATION * fps)"
    using assms by (simp add: rangesValid_def)
  ultimately show ?thesis
    by (cases r) (simp add: connState_def Let_def interpolate_ramp)
qed

lemma containerState_total:
  assumes "rangesValid fps animEvents"
  shows "\<exists>s. containerState frame fps animEvents tbl flr ns nodeStates cid = Inr s"
proof -
  have "\<exists>r. containerStep frame fps animEvents tbl cid i acc = Inr r"
    if "i \<in> set [0..<length animEvents]" for i acc
  proof -
    have d: "0 < durationFrames (animEvents ! i)"
      using assms that by (simp add: rangesValid_def list_all_length)
    have f: "0 < Math_round (FADE_OUT_S * fps)"
      using assms(1) by (simp add: rangesValid_def)
    obtain env where "eventEnvelope frame fps animEvents tbl (animEvents ! i) i = Inr env"
      using eventEnvelope_total [OF d f, of frame animEvents tbl i] by blast
    then show ?thesis by (simp add: containerStep_def Let_def)
  qed
  then have
    "\<exists>r. foldE (containerStep frame fps animEvents tbl cid) [0..<length animEvents] 0 = Inr r"
    by (intro foldE_total)
  then obtain r where
    "foldE (containerStep frame fps animEvents tbl cid) [0..<length animEvents] 0 = Inr r" ..
  then show ?thesis by (simp add: containerState_def Let_def)
qed

lemma find_Some_set: "find P xs = Some v \<Longrightarrow> v \<in> set xs"
  by (induction xs) (auto split: if_splits)

lemma currentStepOf_total:
  assumes "rangesValid fps animEvents"
  shows "\<exists>r. currentStepOf animEvents frame = Inr r"
proof (cases "find (\<lambda>e. step e \<noteq> None \<and> frame \<ge> startFrame e) (rev animEvents)")
  case None
  then show ?thesis by (simp add: currentStepOf_def)
next
  case (Some evt)
  then have "evt \<in> set animEvents"
    using find_Some_set [of _ "rev animEvents" evt] by simp
  then have "0 < durationFrames evt"
    using assms by (simp add: rangesValid_def list_all_iff)
  then show ?thesis using Some by (simp add: currentStepOf_def interpolate_ramp)
qed

text \<open>
  The hook returns a state, for every frame and every list of nodes, connections and
  containers, when the timeline is not empty, the frame rate is above 1 and the ranges
  are valid: then no call of \<^verbatim>\<open>interpolate\<close> raises.
\<close>

lemma useTimeline_returns:
  assumes "timeline \<noteq> []" and "1 < fps"
    and "rangesValid fps (filter isAnimEvent (flattenTimeline timeline fps))"
  shows "\<exists>st. useTimeline timeline ns cs ks frame fps = Inr (Some st)"
proof -
  let ?events = "flattenTimeline timeline fps"
  let ?anim = "filter isAnimEvent ?events"
  let ?tbl = "groupLatestTriggerFrame ?anim"
  let ?flowEnd = "flowEndOf ?events ?anim fps"
  obtain flr opac where g: "computeGlobals ?events frame = Inr (flr, opac)"
    using computeGlobals_total by blast
  obtain nodeStates where n: "nodeStatesOf frame fps ?anim ?tbl flr ns = Inr nodeStates"
    unfolding nodeStatesOf_def
    using buildStates_total [of "map node_id ns" "nodeState frame fps ?anim ?tbl flr"]
      nodeState_total [OF assms(3)] by blast
  obtain connStates where
    c: "connStatesOf frame fps ?anim ?tbl flr ?flowEnd cs = Inr connStates"
    unfolding connStatesOf_def
    using buildStates_total [of "map getConnectionId cs"
        "connState frame fps ?anim ?tbl flr ?flowEnd"]
      connState_total [OF assms(3)] by blast
  obtain containerStates where
    k: "containerStatesOf frame fps ?anim ?tbl flr ns nodeStates ks = Inr containerStates"
    unfolding containerStatesOf_def
    using buildStates_total [of "map container_id ks"
        "containerState frame fps ?anim ?tbl flr ns nodeStates"]
      containerState_total [OF assms(3)] by blast
  obtain cur where cu: "currentStepOf ?anim frame = Inr cur"
    using currentStepOf_total [OF assms(3)] by blast
  have f: "0 < Math_round (FADE_OUT_S * fps)"
    using assms(3) by (simp add: rangesValid_def)
  have "\<exists>ind. (if frame \<ge> ?flowEnd then Inr 0
       else interpolate frame [?flowEnd - Math_round (FADE_OUT_S * fps) * 2, ?flowEnd] [1, 0])
      = Inr ind"
    using f by (cases "frame \<ge> ?flowEnd") (simp_all add: interpolate_ramp_down)
  then obtain ind where i: "(if frame \<ge> ?flowEnd then Inr 0
       else interpolate frame [?flowEnd - Math_round (FADE_OUT_S * fps) * 2, ?flowEnd] [1, 0])
      = Inr ind" ..
  show ?thesis
    using assms(1,2) g n c k cu i
    by (simp add: useTimeline_def Let_def)
qed

end
